theory Spec2Isabelle
  imports Main
begin

section \<open>AirSS model layer: data model\<close>

text \<open>
  The repository is the model layer of a feed reader: \<^verbatim>\<open>items.js\<close> (the item cursor
  store and the format normalizer) and two variants of \<^verbatim>\<open>airss_model.js\<close> (the
  operation serializer). JavaScript numbers that index the item list are modelled as
  \<^typ>\<open>int\<close> (they stay far below \<open>2^53\<close>), store keys as \<^typ>\<open>nat\<close>.
\<close>

type_synonym key = nat

text \<open>A \<^verbatim>\<open>Date\<close>: either the current time, read from the clock in milliseconds, or
  the result of \<^verbatim>\<open>new Date(x)\<close> on a string or on \<^verbatim>\<open>undefined\<close>, kept unparsed.\<close>

datatype jsdate = DateAt int | DateParse "string option"

text \<open>\<^verbatim>\<open>SampleItem\<close>. The \<^verbatim>\<open>id\<close> of a stored item is its key in the store (the store
  has \<^verbatim>\<open>keyPath: "id", autoIncrement: true\<close>), so the record has no field for it. A
  property that the parsers may leave unset is an option; \<^verbatim>\<open>read\<close> unset is falsy.\<close>

record item =
  read :: bool
  feedTitle :: "string option"
  feedId :: "key option"
  datePublished :: "jsdate option"
  contentHtml :: string
  url :: string
  imageUrl :: "string option"
  title :: "string option"
  tags :: "string list"

text \<open>A feed record, as far as the model layer reads and writes it.\<close>

record feed =
  feedUrl :: string
  feedName :: "string option"
  lastLoadTime :: int
  error :: "string option"

text \<open>What an \<^verbatim>\<open>await\<close> can throw: a \<^verbatim>\<open>DOMException\<close> of the store (a violated unique
  index, an invalid key), a \<^verbatim>\<open>TypeError\<close> (a property read on \<^verbatim>\<open>null\<close>), and the
  \<^verbatim>\<open>null\<close> that \<^verbatim>\<open>parseATOMItem\<close> throws.\<close>

datatype err = DOMException | TypeError | ThrownNull

subsection \<open>The store capability (IndexedDB through idb)\<close>

text \<open>
  The database is not code of the repository. It is modelled as \<^verbatim>\<open>upgrade\<close> declares it:
  an object store of items with a key generator and a unique index on \<^verbatim>\<open>url\<close>, its
  records held in ascending key order (the order of a cursor scan), and an object store
  of feeds.
\<close>

record idb =
  recs :: "(key \<times> item) list"
  nextKey :: key
  feedRecs :: "(key \<times> feed) list"

definition idb_add :: "idb \<Rightarrow> item \<Rightarrow> err + (key \<times> idb)" where
  "idb_add d it =
     (if url it \<in> set (map (url \<circ> snd) (recs d)) then Inl DOMException
      else Inr (nextKey d, d\<lparr>recs := recs d @ [(nextKey d, it)], nextKey := nextKey d + 1\<rparr>))"

definition idb_get :: "idb \<Rightarrow> key \<Rightarrow> item option" where
  "idb_get d k = map_of (recs d) k"

definition idb_delete :: "idb \<Rightarrow> key \<Rightarrow> idb" where
  "idb_delete d k = d\<lparr>recs := filter (\<lambda>r. fst r \<noteq> k) (recs d)\<rparr>"

definition idb_put :: "idb \<Rightarrow> key \<Rightarrow> item \<Rightarrow> err + idb" where
  "idb_put d k it =
     (if url it \<in> set (map (url \<circ> snd) (filter (\<lambda>r. fst r \<noteq> k) (recs d))) then Inl DOMException
      else Inr (d\<lparr>recs := insort_key fst (k, it) (filter (\<lambda>r. fst r \<noteq> k) (recs d)),
                  nextKey := max (nextKey d) (k + 1)\<rparr>))"

text \<open>The store's own invariant: keys ascending without repetition and below the key
  generator, urls unique.\<close>

definition wf_idb :: "idb \<Rightarrow> bool" where
  "wf_idb d =
     (sorted (map fst (recs d)) \<and> distinct (map fst (recs d)) \<and>
      list_all (\<lambda>r. fst r < nextKey d) (recs d) \<and> distinct (map (url \<circ> snd) (recs d)))"

section \<open>The item cursor store (items.js)\<close>

text \<open>The module state: \<^verbatim>\<open>db\<close> of the model layer (\<^verbatim>\<open>null\<close> is \<open>None\<close>), and
  \<^verbatim>\<open>items\<close>, \<^verbatim>\<open>reading\<close>, \<^verbatim>\<open>known\<close> of the items module.\<close>

record model =
  db :: "idb option"
  items :: "key list"
  reading :: int
  known :: int

definition readingCursor :: "'a model_scheme \<Rightarrow> int" where
  "readingCursor m = reading m"

definition knownCursor :: "'a model_scheme \<Rightarrow> int" where
  "knownCursor m = known m"

definition length_items :: "'a model_scheme \<Rightarrow> int" where
  "length_items m = int (length (items m))"

definition unreadCount :: "'a model_scheme \<Rightarrow> int" where
  "unreadCount m = int (length (items m)) - known m - 1"

definition forwardCursor :: "'a model_scheme \<Rightarrow> bool \<times> 'a model_scheme" where
  "forwardCursor m =
     (if reading m \<ge> int (length (items m)) - 1 then (False, m)
      else let m1 = m\<lparr>reading := reading m + 1\<rparr>;
               m2 = (if known m1 < reading m1 then m1\<lparr>known := reading m1\<rparr> else m1)
           in (True, m2))"

definition backwardCursor :: "'a model_scheme \<Rightarrow> bool \<times> 'a model_scheme" where
  "backwardCursor m =
     (if reading m \<le> 0 then (False, m) else (True, m\<lparr>reading := reading m - 1\<rparr>))"

text \<open>\<^verbatim>\<open>items[i]\<close>: \<^verbatim>\<open>undefined\<close> (here \<open>None\<close>) outside the list.\<close>

definition item_at :: "key list \<Rightarrow> int \<Rightarrow> key option" where
  "item_at xs i = (if 0 \<le> i \<and> i < int (length xs) then Some (xs ! nat i) else None)"

text \<open>\<^verbatim>\<open>markRead(db, item)\<close>; the item object carries its \<^verbatim>\<open>id\<close>, here the key.\<close>

definition markRead :: "key \<times> item \<Rightarrow> 'a model_scheme \<Rightarrow> (err + unit) \<times> 'a model_scheme" where
  "markRead ki m =
     (if read (snd ki) then (Inr (), m)
      else case db m of
        None \<Rightarrow> (Inl TypeError, m)
      | Some d \<Rightarrow>
          (case idb_put d (fst ki) ((snd ki)\<lparr>read := True\<rparr>) of
             Inl e \<Rightarrow> (Inl e, m)
           | Inr d' \<Rightarrow> (Inr (), m\<lparr>db := Some d'\<rparr>)))"

text \<open>\<^verbatim>\<open>getCurrentItem(db)\<close>: \<open>Inr None\<close> is \<^verbatim>\<open>null\<close> or \<^verbatim>\<open>undefined\<close>; a \<^verbatim>\<open>get\<close> with
  the key \<^verbatim>\<open>undefined\<close> is refused by the store with a \<^verbatim>\<open>DOMException\<close>.\<close>

definition getCurrentItem :: "'a model_scheme \<Rightarrow> err + (key \<times> item) option" where
  "getCurrentItem m =
     (if reading m \<ge> 0 then
        (case db m of
           None \<Rightarrow> Inl TypeError
         | Some d \<Rightarrow>
            (case item_at (items m) (reading m) of
               None \<Rightarrow> Inl DOMException
             | Some k \<Rightarrow> Inr (map_option (\<lambda>it. (k, it)) (idb_get d k))))
      else Inr None)"

definition deleteCurrentItem :: "'a model_scheme \<Rightarrow> (err + bool) \<times> 'a model_scheme" where
  "deleteCurrentItem m =
     (if reading m < 0 then (Inr False, m)
      else case db m of
        None \<Rightarrow> (Inl TypeError, m)
      | Some d \<Rightarrow>
         (case item_at (items m) (reading m) of
            None \<Rightarrow> (Inl DOMException, m)
          | Some k \<Rightarrow>
             (Inr True,
              m\<lparr>db := Some (idb_delete d k),
                items := take (nat (reading m)) (items m) @ drop (nat (reading m + 1)) (items m),
                reading := reading m - 1,
                known := known m - 1\<rparr>)))"

definition pushItem :: "item \<Rightarrow> 'a model_scheme \<Rightarrow> (err + unit) \<times> 'a model_scheme" where
  "pushItem it m =
     (case db m of
        None \<Rightarrow> (Inl TypeError, m)
      | Some d \<Rightarrow>
         (case idb_add d it of
            Inl e \<Rightarrow> (Inl e, m)
          | Inr (k, d') \<Rightarrow> (Inr (), m\<lparr>db := Some d', items := items m @ [k]\<rparr>)))"

text \<open>The \<^verbatim>\<open>while (cursor)\<close> loop of \<^verbatim>\<open>load\<close>, over the records the cursor visits.\<close>

fun load_loop :: "(key \<times> item) list \<Rightarrow> 'a model_scheme \<Rightarrow> 'a model_scheme" where
  "load_loop [] m = m"
| "load_loop (c # cs) m =
     load_loop cs ((if read (snd c) then m\<lparr>known := known m + 1\<rparr> else m)
                     \<lparr>items := items (if read (snd c) then m\<lparr>known := known m + 1\<rparr> else m) @ [fst c]\<rparr>)"

definition load :: "'a model_scheme \<Rightarrow> (err + unit) \<times> 'a model_scheme" where
  "load m =
     (case db m of
        None \<Rightarrow> (Inl TypeError, m)
      | Some d \<Rightarrow>
         (let m1 = load_loop (recs d) (m\<lparr>items := [], known := -1\<rparr>)
          in (Inr (), m1\<lparr>reading := known m1\<rparr>)))"

subsection \<open>Reachable states of the cursor store\<close>

datatype cursor_op =
    Load | PushItem item | ForwardCursor | BackwardCursor
  | MarkRead key item | DeleteCurrentItem

fun step :: "cursor_op \<Rightarrow> model \<Rightarrow> model" where
  "step Load m = snd (load m)"
| "step (PushItem it) m = snd (pushItem it m)"
| "step ForwardCursor m = snd (forwardCursor m)"
| "step BackwardCursor m = snd (backwardCursor m)"
| "step (MarkRead k it) m = snd (markRead (k, it) m)"
| "step DeleteCurrentItem m = snd (deleteCurrentItem m)"

fun run :: "cursor_op list \<Rightarrow> model \<Rightarrow> model" where
  "run [] m = m"
| "run (c # cs) m = run cs (step c m)"

text \<open>The module as it is when loaded: \<^verbatim>\<open>items = []\<close>, \<^verbatim>\<open>reading = -1\<close>,
  \<^verbatim>\<open>known = -1\<close>, over any database (or none).\<close>

definition module_init :: "idb option \<Rightarrow> model" where
  "module_init d = \<lparr>db = d, items = [], reading = -1, known = -1\<rparr>"

text \<open>The relations between the cursors and the list that every operation keeps.\<close>

definition cursor_inv :: "'a model_scheme \<Rightarrow> bool" where
  "cursor_inv m = (-1 \<le> reading m \<and> reading m \<le> known m \<and> known m < int (length (items m)))"

text \<open>What the list of ids owes to the store: an open database in its invariant, and ids
  without repetition, all handed out by the key generator.\<close>

definition store_inv :: "'a model_scheme \<Rightarrow> bool" where
  "store_inv m =
     (case db m of
        None \<Rightarrow> False
      | Some d \<Rightarrow> wf_idb d \<and> distinct (items m) \<and> list_all (\<lambda>k. k < nextKey d) (items m))"

text \<open>The loop of \<^verbatim>\<open>loadFeed\<close> and \<^verbatim>\<open>cb_updateFeed\<close> that pushes the new items, over the
  items in the order the loop visits them (the callers pass the reversed list): a
  \<^verbatim>\<open>DOMException\<close> of \<^verbatim>\<open>pushItem\<close> is caught and dropped, anything else is rethrown.\<close>

fun push_loop :: "item list \<Rightarrow> 'a model_scheme \<Rightarrow> (err + unit) \<times> 'a model_scheme" where
  "push_loop [] m = (Inr (), m)"
| "push_loop (x # xs) m =
     (case pushItem x m of
        (Inl e, m1) \<Rightarrow> if e = DOMException then push_loop xs m1 else (Inl e, m1)
      | (Inr u, m1) \<Rightarrow> push_loop xs m1)"

text \<open>How many stored items have a given url.\<close>

definition stored_with_url :: "string \<Rightarrow> 'a model_scheme \<Rightarrow> nat" where
  "stored_with_url u m =
     (case db m of None \<Rightarrow> 0 | Some d \<Rightarrow> length (filter (\<lambda>r. url (snd r) = u) (recs d)))"

text \<open>The contiguous read prefix of a scan, and the scans in which every read item comes
  before every unread one (the comment in \<^verbatim>\<open>load\<close>: "items from the beginning up to a point
  are read").\<close>

definition read_prefix :: "(key \<times> item) list \<Rightarrow> nat" where
  "read_prefix cs = length (takeWhile (\<lambda>c. read (snd c)) cs)"

definition reads_first :: "(key \<times> item) list \<Rightarrow> bool" where
  "reads_first cs = list_all (\<lambda>c. \<not> read (snd c)) (dropWhile (\<lambda>c. read (snd c)) cs)"

subsection \<open>Sample data\<close>

definition sample_item :: "string \<Rightarrow> bool \<Rightarrow> item" where
  "sample_item u r =
     \<lparr>read = r, feedTitle = None, feedId = None, datePublished = None,
      contentHtml = ''<p>text</p>'', url = u, imageUrl = None, title = None, tags = []\<rparr>"

definition sample_db :: idb where
  "sample_db =
     \<lparr>recs = [(1, sample_item ''a'' True), (2, sample_item ''b'' False)], nextKey = 3,
      feedRecs = []\<rparr>"

definition gap_db :: idb where
  "gap_db =
     \<lparr>recs = [(1, sample_item ''a'' False), (2, sample_item ''b'' True)], nextKey = 3,
      feedRecs = []\<rparr>"

lemmas eval_defs =
  module_init_def sample_db_def gap_db_def sample_item_def load_def pushItem_def forwardCursor_def
  backwardCursor_def deleteCurrentItem_def markRead_def idb_add_def idb_delete_def idb_put_def
  idb_get_def item_at_def unreadCount_def length_items_def knownCursor_def readingCursor_def
  wf_idb_def Let_def

section \<open>Invariants of the cursor store\<close>

lemma load_loop_items: "items (load_loop cs m) = items m @ map fst cs"
  by (induction cs arbitrary: m) auto

lemma load_loop_known:
  "known (load_loop cs m) = known m + int (length (filter (\<lambda>c. read (snd c)) cs))"
  by (induction cs arbitrary: m) auto

lemma load_loop_reading: "reading (load_loop cs m) = reading m"
  by (induction cs arbitrary: m) auto

lemma load_loop_db: "db (load_loop cs m) = db m"
  by (induction cs arbitrary: m) auto

lemma cursor_inv_init: "cursor_inv (module_init d)"
  by (simp add: cursor_inv_def module_init_def)

lemma cursor_inv_load: "cursor_inv m \<Longrightarrow> cursor_inv (snd (load m))"
proof (cases "db m")
  case None
  assume "cursor_inv m"
  with None show ?thesis by (simp add: load_def)
next
  case (Some d)
  have "int (length (filter (\<lambda>c. read (snd c)) (recs d))) - 1 < int (length (recs d))"
    using length_filter_le [of "\<lambda>c. read (snd c)" "recs d"] by linarith
  with Some show ?thesis
    by (simp add: load_def Let_def cursor_inv_def load_loop_items load_loop_known)
qed

lemma cursor_inv_pushItem: "cursor_inv m \<Longrightarrow> cursor_inv (snd (pushItem it m))"
  by (auto simp: pushItem_def cursor_inv_def split: option.splits sum.splits)

lemma cursor_inv_forwardCursor: "cursor_inv m \<Longrightarrow> cursor_inv (snd (forwardCursor m))"
  by (auto simp: forwardCursor_def cursor_inv_def Let_def)

lemma cursor_inv_backwardCursor: "cursor_inv m \<Longrightarrow> cursor_inv (snd (backwardCursor m))"
  by (auto simp: backwardCursor_def cursor_inv_def)

lemma cursor_inv_markRead: "cursor_inv m \<Longrightarrow> cursor_inv (snd (markRead ki m))"
  by (auto simp: markRead_def cursor_inv_def split: option.splits sum.splits)

lemma cursor_inv_deleteCurrentItem:
  "cursor_inv m \<Longrightarrow> cursor_inv (snd (deleteCurrentItem m))"
  by (auto simp: deleteCurrentItem_def cursor_inv_def item_at_def split: option.splits)

lemma cursor_inv_step: "cursor_inv m \<Longrightarrow> cursor_inv (step c m)"
  by (cases c)
     (simp_all add: cursor_inv_load cursor_inv_pushItem cursor_inv_forwardCursor
        cursor_inv_backwardCursor cursor_inv_markRead cursor_inv_deleteCurrentItem)

lemma cursor_inv_run: "cursor_inv m \<Longrightarrow> cursor_inv (run cs m)"
  by (induction cs arbitrary: m) (simp_all add: cursor_inv_step)

lemma cursor_inv_reachable: "cursor_inv (run cs (module_init d))"
  by (rule cursor_inv_run [OF cursor_inv_init])

subsection \<open>The store invariant\<close>

lemma distinct_map_insort_key:
  "distinct (map f (insort_key g x xs)) = (f x \<notin> f ` set xs \<and> distinct (map f xs))"
  by (induction xs) (auto simp: set_insort_key)

lemma wf_idb_add:
  assumes "wf_idb d" and "idb_add d it = Inr (k, d')"
  shows "wf_idb d' \<and> k = nextKey d \<and> nextKey d' = nextKey d + 1"
proof -
  from assms(2) have fresh: "url it \<notin> set (map (url \<circ> snd) (recs d))"
    and k: "k = nextKey d"
    and d': "d' = d\<lparr>recs := recs d @ [(nextKey d, it)], nextKey := nextKey d + 1\<rparr>"
    by (auto simp: idb_add_def split: if_splits)
  from assms(1) have below: "\<forall>r\<in>set (recs d). fst r < nextKey d"
    by (simp add: wf_idb_def list_all_iff)
  from below have "\<forall>x\<in>set (map fst (recs d)). x \<le> nextKey d" by auto
  moreover from below have "nextKey d \<notin> set (map fst (recs d))" by auto
  moreover from below have "\<forall>r\<in>set (recs d). fst r < Suc (nextKey d)" by auto
  ultimately have "wf_idb d'"
    using assms(1) fresh by (simp add: wf_idb_def d' list_all_iff sorted_append)
  with k d' show ?thesis by simp
qed

lemma wf_idb_delete: "wf_idb d \<Longrightarrow> wf_idb (idb_delete d k)"
  by (auto simp: wf_idb_def idb_delete_def list_all_iff sorted_filter distinct_map_filter)

lemma wf_idb_put:
  assumes "wf_idb d" and "idb_put d k it = Inr d'"
  shows "wf_idb d' \<and> nextKey d \<le> nextKey d'"
proof -
  let ?rest = "filter (\<lambda>r. fst r \<noteq> k) (recs d)"
  from assms(2) have fresh: "url it \<notin> set (map (url \<circ> snd) ?rest)"
    and d': "d' = d\<lparr>recs := insort_key fst (k, it) ?rest, nextKey := max (nextKey d) (k + 1)\<rparr>"
    by (auto simp: idb_put_def split: if_splits)
  from assms(1) have "sorted (map fst ?rest)" "distinct (map fst ?rest)"
    "distinct (map (url \<circ> snd) ?rest)"
    by (simp_all add: wf_idb_def sorted_filter distinct_map_filter)
  moreover have "k \<notin> fst ` set ?rest" by auto
  moreover from assms(1) have "\<forall>r\<in>set ?rest. fst r < max (nextKey d) (k + 1)"
    by (auto simp: wf_idb_def list_all_iff)
  ultimately have "wf_idb d'"
    using fresh
    by (simp add: wf_idb_def d' list_all_iff set_insort_key sorted_insort_key
        distinct_map_insort_key)
  with d' show ?thesis by simp
qed

lemma store_inv_load: "store_inv m \<Longrightarrow> store_inv (snd (load m))"
  by (auto simp: store_inv_def load_def Let_def load_loop_items load_loop_db wf_idb_def
      list_all_iff split: option.splits)

lemma store_inv_pushItem: "store_inv m \<Longrightarrow> store_inv (snd (pushItem it m))"
proof (cases "db m")
  case None
  assume "store_inv m"
  with None show ?thesis by (simp add: store_inv_def)
next
  case (Some d)
  assume inv: "store_inv m"
  show ?thesis
  proof (cases "idb_add d it")
    case (Inl e)
    with Some inv show ?thesis by (simp add: pushItem_def)
  next
    case (Inr kd)
    obtain k d' where kd: "kd = (k, d')" by (cases kd)
    from inv Some have wf: "wf_idb d" and dist: "distinct (items m)"
      and below: "\<forall>x\<in>set (items m). x < nextKey d"
      by (simp_all add: store_inv_def list_all_iff)
    from wf_idb_add [OF wf Inr [unfolded kd]]
    have "wf_idb d'" "k = nextKey d" "nextKey d' = nextKey d + 1" by simp_all
    with dist below Some Inr kd show ?thesis
      by (auto simp: pushItem_def store_inv_def list_all_iff)
  qed
qed

lemma store_inv_forwardCursor: "store_inv m \<Longrightarrow> store_inv (snd (forwardCursor m))"
  by (auto simp: forwardCursor_def store_inv_def Let_def split: option.splits)

lemma store_inv_backwardCursor: "store_inv m \<Longrightarrow> store_inv (snd (backwardCursor m))"
  by (auto simp: backwardCursor_def store_inv_def split: option.splits)

lemma store_inv_markRead: "store_inv m \<Longrightarrow> store_inv (snd (markRead ki m))"
proof (cases "db m")
  case None
  assume "store_inv m"
  with None show ?thesis by (simp add: store_inv_def)
next
  case (Some d)
  assume inv: "store_inv m"
  show ?thesis
  proof (cases "idb_put d (fst ki) ((snd ki)\<lparr>read := True\<rparr>)")
    case (Inl e)
    with Some inv show ?thesis by (simp add: markRead_def)
  next
    case (Inr d')
    from inv Some have wf: "wf_idb d" and dist: "distinct (items m)"
      and below: "\<forall>x\<in>set (items m). x < nextKey d"
      by (simp_all add: store_inv_def list_all_iff)
    from wf_idb_put [OF wf Inr] have "wf_idb d'" "nextKey d \<le> nextKey d'" by simp_all
    with dist below Some Inr inv show ?thesis
      by (auto simp: markRead_def store_inv_def list_all_iff)
  qed
qed

lemma distinct_take_drop: "distinct xs \<Longrightarrow> distinct (take n xs @ drop (Suc n) xs)"
  by (metis distinct_drop distinct_take append_take_drop_id distinct_append drop_Suc
      tl_drop distinct_tl set_take_disj_set_drop_if_distinct le_SucI order_refl)

lemma store_inv_deleteCurrentItem:
  "store_inv m \<Longrightarrow> store_inv (snd (deleteCurrentItem m))"
proof (cases "db m")
  case None
  assume "store_inv m"
  with None show ?thesis by (simp add: store_inv_def)
next
  case (Some d)
  assume inv: "store_inv m"
  from inv Some have wf: "wf_idb d" and dist: "distinct (items m)"
    and below: "\<forall>x\<in>set (items m). x < nextKey d"
    by (simp_all add: store_inv_def list_all_iff)
  have d1: "distinct (take n (items m) @ drop (Suc n) (items m))" for n
    by (rule distinct_take_drop [OF dist])
  have b1: "\<forall>x\<in>set (take n (items m) @ drop (Suc n) (items m)). x < nextKey d" for n
    using below by (auto dest: in_set_takeD in_set_dropD)
  show ?thesis
  proof (cases "reading m < 0 \<or> item_at (items m) (reading m) = None")
    case True
    with Some inv show ?thesis by (auto simp: deleteCurrentItem_def)
  next
    case False
    then obtain k where k: "item_at (items m) (reading m) = Some k" and r: "0 \<le> reading m"
      by auto
    from r have n: "nat (reading m + 1) = Suc (nat (reading m))" by simp
    from Some k r wf_idb_delete [OF wf, of k] d1 [of "nat (reading m)"] b1 [of "nat (reading m)"]
    show ?thesis
      by (simp add: deleteCurrentItem_def store_inv_def list_all_iff n idb_delete_def)
  qed
qed

lemma store_inv_step: "store_inv m \<Longrightarrow> store_inv (step c m)"
  by (cases c)
     (simp_all add: store_inv_load store_inv_pushItem store_inv_forwardCursor
        store_inv_backwardCursor store_inv_markRead store_inv_deleteCurrentItem)

lemma store_inv_run: "store_inv m \<Longrightarrow> store_inv (run cs m)"
  by (induction cs arbitrary: m) (simp_all add: store_inv_step)

lemma store_inv_reachable: "wf_idb d \<Longrightarrow> store_inv (run cs (module_init (Some d)))"
  by (rule store_inv_run) (simp add: store_inv_def module_init_def)

subsection \<open>Auxiliary list facts\<close>

lemma filter_takeWhile_prefix:
  "list_all (\<lambda>x. \<not> P x) (dropWhile P xs) \<Longrightarrow> filter P xs = takeWhile P xs"
proof (induction xs)
  case Nil
  show ?case by simp
next
  case (Cons x xs)
  show ?case
  proof (cases "P x")
    case True
    with Cons show ?thesis by simp
  next
    case False
    with Cons.prems have "\<forall>y\<in>set xs. \<not> P y" by (simp add: list_all_iff)
    then have "filter P xs = []" by (simp add: filter_empty_conv)
    with False show ?thesis by simp
  qed
qed

lemma nth_notin_take_drop:
  assumes "distinct xs" and "n < length xs"
  shows "xs ! n \<notin> set (take n xs @ drop (Suc n) xs)"
proof -
  have "distinct (take n xs @ xs ! n # drop (Suc n) xs)"
    using assms(1) id_take_nth_drop [OF assms(2)] by metis
  then show ?thesis by auto
qed

lemma filter_none: "u \<notin> f ` set xs \<Longrightarrow> filter (\<lambda>r. f r = u) xs = []"
  by (induction xs) auto

lemma filter_one:
  "distinct (map f xs) \<Longrightarrow> u \<in> f ` set xs \<Longrightarrow> length (filter (\<lambda>r. f r = u) xs) = 1"
proof (induction xs)
  case Nil
  then show ?case by simp
next
  case (Cons x xs)
  show ?case
  proof (cases "f x = u")
    case True
    with Cons.prems(1) have "u \<notin> f ` set xs" by auto
    with True show ?thesis by (simp add: filter_none)
  next
    case False
    with Cons show ?thesis by auto
  qed
qed

section \<open>Properties of the cursor store\<close>

text \<open>
  Claim C2. In every state the cursor store reaches from its initial state by any sequence
  of \<^verbatim>\<open>load\<close>, \<^verbatim>\<open>pushItem\<close>, \<^verbatim>\<open>forwardCursor\<close>, \<^verbatim>\<open>backwardCursor\<close>, \<^verbatim>\<open>markRead\<close> and
  \<^verbatim>\<open>deleteCurrentItem\<close> calls (failed ones included), over any database or none,
  \<^verbatim>\<open>unreadCount()\<close> is \<^verbatim>\<open>length() - knownCursor() - 1\<close> and is not negative.
\<close>

theorem unreadCount_reachable:
  "unreadCount (run cs (module_init d)) =
     length_items (run cs (module_init d)) - knownCursor (run cs (module_init d)) - 1
   \<and> 0 \<le> unreadCount (run cs (module_init d))"
  using cursor_inv_reachable [of cs d]
  by (simp add: unreadCount_def length_items_def knownCursor_def cursor_inv_def)

theorem unreadCount_reachable_witness:
  "unreadCount (run [Load, PushItem (sample_item ''c'' False), ForwardCursor]
      (module_init (Some sample_db))) = 1"
  using unreadCount_reachable
    [of "[Load, PushItem (sample_item ''c'' False), ForwardCursor]" "Some sample_db"]
  by (simp add: eval_defs)

text \<open>
  Claim C3. In every reachable state of the cursor store (so in particular after a load
  followed by any sequence of forward and backward moves) \<^verbatim>\<open>reading\<close> lies in
  \<open>[-1, length - 1]\<close>; \<^verbatim>\<open>forwardCursor\<close> at the last index changes nothing and returns
  false; \<^verbatim>\<open>backwardCursor\<close> at \<^verbatim>\<open>reading <= 0\<close> changes nothing and returns false;
  otherwise \<^verbatim>\<open>forwardCursor\<close> adds one to \<^verbatim>\<open>reading\<close>, raises \<^verbatim>\<open>known\<close> to the new
  \<^verbatim>\<open>reading\<close> when it was below it, and returns true.
\<close>

theorem cursor_moves_reachable:
  fixes m :: model
  assumes "m = run cs (module_init d)"
  shows "-1 \<le> reading m \<and> reading m \<le> length_items m - 1
    \<and> (reading m = length_items m - 1 \<longrightarrow> forwardCursor m = (False, m))
    \<and> (reading m \<le> 0 \<longrightarrow> backwardCursor m = (False, m))
    \<and> (reading m \<noteq> length_items m - 1 \<longrightarrow>
         forwardCursor m =
           (True, m\<lparr>reading := reading m + 1,
                     known := (if known m < reading m + 1 then reading m + 1 else known m)\<rparr>))"
  using cursor_inv_reachable [of cs d] assms
  by (auto simp: cursor_inv_def length_items_def forwardCursor_def backwardCursor_def Let_def)

theorem cursor_moves_reachable_witness:
  "forwardCursor (run [Load] (module_init (Some sample_db)))
     = (True, (run [Load] (module_init (Some sample_db)))\<lparr>reading := 1, known := 1\<rparr>)
   \<and> backwardCursor (run [Load] (module_init (Some sample_db)))
     = (False, run [Load] (module_init (Some sample_db)))
   \<and> forwardCursor (run [Load, ForwardCursor] (module_init (Some sample_db)))
     = (False, run [Load, ForwardCursor] (module_init (Some sample_db)))"
  using cursor_moves_reachable [OF refl, of "[Load]" "Some sample_db"]
    cursor_moves_reachable [OF refl, of "[Load, ForwardCursor]" "Some sample_db"]
  by (simp add: eval_defs)

text \<open>
  Claim C4, as amended. Over any stored sequence of items, \<^verbatim>\<open>load\<close> succeeds, lists the
  keys in scan order, leaves \<^verbatim>\<open>known\<close> at the number of stored items whose \<^verbatim>\<open>read\<close> flag
  is true minus one, and sets \<^verbatim>\<open>reading\<close> to \<^verbatim>\<open>known\<close>. That number is the index of the
  last item of the contiguous read prefix when every read item comes before every unread
  one.
\<close>

theorem load_known:
  assumes "db m = Some d"
  shows "fst (load m) = Inr ()
    \<and> items (snd (load m)) = map fst (recs d)
    \<and> known (snd (load m)) = int (length (filter (\<lambda>c. read (snd c)) (recs d))) - 1
    \<and> reading (snd (load m)) = known (snd (load m))
    \<and> (reads_first (recs d) \<longrightarrow> known (snd (load m)) = int (read_prefix (recs d)) - 1)"
  using assms
  by (simp add: load_def Let_def load_loop_items load_loop_known reads_first_def read_prefix_def
      filter_takeWhile_prefix)

theorem load_known_witness:
  "known (snd (load (module_init (Some sample_db)))) = 0
   \<and> reading (snd (load (module_init (Some sample_db)))) = 0
   \<and> reads_first (recs sample_db) \<and> read_prefix (recs sample_db) = 1"
  using load_known [of "module_init (Some sample_db)" sample_db]
  by (simp add: eval_defs reads_first_def read_prefix_def)

text \<open>
  The claim as written (for every stored sequence, \<^verbatim>\<open>known\<close> is the index of the last item
  of the contiguous read prefix) fails when a read item follows an unread one: over an
  unread item followed by a read one, \<^verbatim>\<open>load\<close> leaves \<^verbatim>\<open>known = 0\<close>, while the read prefix
  is empty and its last index would be \<open>-1\<close>.
\<close>

theorem load_known_counterexample:
  "known (snd (load (module_init (Some gap_db)))) = 0
   \<and> int (read_prefix (recs gap_db)) - 1 = -1"
  by (simp add: eval_defs read_prefix_def)

text \<open>
  Claim C5. In any state with an open database in its invariant, when two items with the
  same url are pushed one after the other, the second \<^verbatim>\<open>pushItem\<close> is rejected with a
  \<^verbatim>\<open>DOMException\<close> and leaves the whole state (database, id list, cursors) as it was
  before it; exactly one stored item has that url, after the first push and after the
  second; and the push loop of \<^verbatim>\<open>loadFeed\<close> absorbs the rejection and ends normally.
\<close>

theorem pushItem_duplicate:
  assumes "db m = Some d" and "wf_idb d" and "url i2 = url i1"
  shows "pushItem i2 (snd (pushItem i1 m)) = (Inl DOMException, snd (pushItem i1 m))
    \<and> stored_with_url (url i1) (snd (pushItem i1 m)) = 1
    \<and> stored_with_url (url i1) (snd (pushItem i2 (snd (pushItem i1 m)))) = 1
    \<and> push_loop [i1, i2] m = (Inr (), snd (pushItem i1 m))"
proof -
  let ?m1 = "snd (pushItem i1 m)"
  from assms(2) have du: "distinct (map (url \<circ> snd) (recs d))" by (simp add: wf_idb_def)
  have m1: "\<exists>d1. db ?m1 = Some d1 \<and> url i1 \<in> (url \<circ> snd) ` set (recs d1)
      \<and> distinct (map (url \<circ> snd) (recs d1))
      \<and> (fst (pushItem i1 m) = Inr () \<or> fst (pushItem i1 m) = Inl DOMException)"
    using assms(1) du by (auto simp: pushItem_def idb_add_def)
  then obtain d1 where d1: "db ?m1 = Some d1" and mem: "url i1 \<in> (url \<circ> snd) ` set (recs d1)"
    and du1: "distinct (map (url \<circ> snd) (recs d1))"
    and r1: "fst (pushItem i1 m) = Inr () \<or> fst (pushItem i1 m) = Inl DOMException"
    by blast
  have second: "pushItem i2 ?m1 = (Inl DOMException, ?m1)"
    using d1 mem assms(3) by (simp add: pushItem_def idb_add_def)
  have one: "stored_with_url (url i1) ?m1 = 1"
    using filter_one [OF du1 mem] d1 by (simp add: stored_with_url_def)
  have loop: "push_loop [i1, i2] m = (Inr (), ?m1)"
    using r1 second by (cases "pushItem i1 m") auto
  from second one loop show ?thesis by simp
qed

theorem pushItem_duplicate_witness:
  "pushItem (sample_item ''c'' True)
      (snd (pushItem (sample_item ''c'' False) (module_init (Some sample_db))))
     = (Inl DOMException, snd (pushItem (sample_item ''c'' False) (module_init (Some sample_db))))
   \<and> stored_with_url ''c'' (snd (pushItem (sample_item ''c'' False) (module_init (Some sample_db)))) = 1
   \<and> items (snd (pushItem (sample_item ''c'' False) (module_init (Some sample_db)))) = [3]"
  using pushItem_duplicate [of "module_init (Some sample_db)" sample_db
      "sample_item ''c'' True" "sample_item ''c'' False"]
  by (simp add: eval_defs)

text \<open>
  Claim C6. In every state reached over a database in its invariant,
  \<^verbatim>\<open>deleteCurrentItem\<close> returns false and changes nothing when \<^verbatim>\<open>reading < 0\<close>; otherwise
  it returns true, deletes the record with the key \<^verbatim>\<open>items[reading]\<close> from the store,
  removes that one slot from the list (the items before it and after it stay, in order),
  and subtracts one from \<^verbatim>\<open>reading\<close> and from \<^verbatim>\<open>known\<close>; the deleted id is no longer in the
  list, and when \<^verbatim>\<open>reading\<close> was the last index it is the last index of the shorter list.
\<close>

theorem deleteCurrentItem_reachable:
  fixes m :: model
  assumes "wf_idb d" and "m = run cs (module_init (Some d))"
  shows "(reading m < 0 \<longrightarrow> deleteCurrentItem m = (Inr False, m))
    \<and> (0 \<le> reading m \<longrightarrow>
         (\<exists>k d1. db m = Some d1 \<and> item_at (items m) (reading m) = Some k
            \<and> deleteCurrentItem m =
                (Inr True,
                 m\<lparr>db := Some (idb_delete d1 k),
                   items := take (nat (reading m)) (items m) @ drop (nat (reading m) + 1) (items m),
                   reading := reading m - 1, known := known m - 1\<rparr>)
            \<and> idb_get (idb_delete d1 k) k = None
            \<and> k \<notin> set (items (snd (deleteCurrentItem m)))
            \<and> length_items (snd (deleteCurrentItem m)) = length_items m - 1
            \<and> (reading m = length_items m - 1 \<longrightarrow>
                 reading (snd (deleteCurrentItem m)) = length_items (snd (deleteCurrentItem m)) - 1)))"
    (is "?neg \<and> (0 \<le> reading m \<longrightarrow> (\<exists>k d1. ?pos k d1))")
proof
  show ?neg by (simp add: deleteCurrentItem_def)
next
  show "0 \<le> reading m \<longrightarrow> (\<exists>k d1. ?pos k d1)"
  proof
  assume r: "0 \<le> reading m"
  from assms have sinv: "store_inv m" by (simp add: store_inv_reachable)
  from assms have cinv: "cursor_inv m" by (simp add: cursor_inv_reachable)
  from sinv obtain d1 where d1: "db m = Some d1" and dist: "distinct (items m)"
    by (auto simp: store_inv_def split: option.splits)
  let ?n = "nat (reading m)"
  from cinv r have n: "?n < length (items m)" by (auto simp: cursor_inv_def)
  with r have at: "item_at (items m) (reading m) = Some (items m ! ?n)"
    by (simp add: item_at_def)
  from r have suc: "nat (reading m + 1) = Suc ?n" by simp
  have del: "deleteCurrentItem m =
      (Inr True,
       m\<lparr>db := Some (idb_delete d1 (items m ! ?n)),
         items := take ?n (items m) @ drop (?n + 1) (items m),
         reading := reading m - 1, known := known m - 1\<rparr>)"
    using r d1 at by (simp add: deleteCurrentItem_def suc)
  have gone: "idb_get (idb_delete d1 (items m ! ?n)) (items m ! ?n) = None"
    by (auto simp: idb_get_def idb_delete_def map_of_eq_None_iff)
  have absent: "items m ! ?n \<notin> set (items (snd (deleteCurrentItem m)))"
    using nth_notin_take_drop [OF dist n] by (simp add: del)
  have len: "length_items (snd (deleteCurrentItem m)) = length_items m - 1"
    using n by (simp add: del length_items_def)
  have rd: "reading (snd (deleteCurrentItem m)) = reading m - 1"
    by (simp add: del)
  have last: "reading m = length_items m - 1 \<longrightarrow>
      reading (snd (deleteCurrentItem m)) = length_items (snd (deleteCurrentItem m)) - 1"
    using len rd by simp
  have "?pos (items m ! ?n) d1"
    by (intro conjI) (rule d1 at del gone absent len last)+
  then show "\<exists>k d1. ?pos k d1" by (intro exI)
  qed
qed

theorem deleteCurrentItem_reachable_witness:
  "wf_idb sample_db
   \<and> deleteCurrentItem (run [Load, ForwardCursor] (module_init (Some sample_db)))
     = (Inr True,
        \<lparr>db = Some (sample_db\<lparr>recs := [(1, sample_item ''a'' True)]\<rparr>),
         items = [1], reading = 0, known = 0\<rparr>)
   \<and> deleteCurrentItem (module_init (Some sample_db)) = (Inr False, module_init (Some sample_db))"
  using deleteCurrentItem_reachable [of sample_db _ "[Load, ForwardCursor]", OF _ refl]
    deleteCurrentItem_reachable [of sample_db _ "[]", OF _ refl]
  by (simp add: eval_defs)

text \<open>
  Claim C10. In every reachable state of the cursor store \<^verbatim>\<open>reading <= known\<close>: a
  successful \<^verbatim>\<open>load\<close> makes them equal, \<^verbatim>\<open>forwardCursor\<close> keeps the order,
  \<^verbatim>\<open>backwardCursor\<close> never raises \<^verbatim>\<open>reading\<close> and leaves \<^verbatim>\<open>known\<close>, a successful
  \<^verbatim>\<open>deleteCurrentItem\<close> subtracts one from both, and \<^verbatim>\<open>pushItem\<close> changes neither.
\<close>

theorem reading_le_known_reachable:
  "reading (run cs (module_init d)) \<le> known (run cs (module_init d))
   \<and> (db m \<noteq> None \<longrightarrow> reading (snd (load m)) = known (snd (load m)))
   \<and> (reading m \<le> known m \<longrightarrow> reading (snd (forwardCursor m)) \<le> known (snd (forwardCursor m)))
   \<and> reading (snd (backwardCursor m)) \<le> reading m
   \<and> known (snd (backwardCursor m)) = known m
   \<and> (fst (deleteCurrentItem m) = Inr True \<longrightarrow>
        reading (snd (deleteCurrentItem m)) = reading m - 1 \<and>
        known (snd (deleteCurrentItem m)) = known m - 1)
   \<and> reading (snd (pushItem it m)) = reading m \<and> known (snd (pushItem it m)) = known m"
proof -
  have "reading (run cs (module_init d)) \<le> known (run cs (module_init d))"
    using cursor_inv_reachable [of cs d] by (simp add: cursor_inv_def)
  moreover have "db m \<noteq> None \<longrightarrow> reading (snd (load m)) = known (snd (load m))"
    by (auto simp: load_def Let_def)
  moreover have "reading m \<le> known m \<longrightarrow>
      reading (snd (forwardCursor m)) \<le> known (snd (forwardCursor m))"
    by (simp add: forwardCursor_def Let_def)
  moreover have "reading (snd (backwardCursor m)) \<le> reading m"
    "known (snd (backwardCursor m)) = known m"
    by (simp_all add: backwardCursor_def)
  moreover have "fst (deleteCurrentItem m) = Inr True \<longrightarrow>
        reading (snd (deleteCurrentItem m)) = reading m - 1 \<and>
        known (snd (deleteCurrentItem m)) = known m - 1"
    by (auto simp: deleteCurrentItem_def split: option.splits)
  moreover have "reading (snd (pushItem it m)) = reading m" "known (snd (pushItem it m)) = known m"
    by (auto simp: pushItem_def split: option.splits sum.splits)
  ultimately show ?thesis by blast
qed

theorem reading_le_known_reachable_witness:
  "reading (run [Load, ForwardCursor, BackwardCursor] (module_init (Some sample_db))) = 0
   \<and> known (run [Load, ForwardCursor, BackwardCursor] (module_init (Some sample_db))) = 1"
  using reading_le_known_reachable
    [of "[Load, ForwardCursor, BackwardCursor]" "Some sample_db" "module_init (Some sample_db)"]
  by (simp add: eval_defs)

section \<open>The format normalizer (items.js)\<close>

text \<open>A JSON Feed entry, with the properties \<^verbatim>\<open>parseJSONItem\<close> reads; \<open>None\<close> is
  \<^verbatim>\<open>undefined\<close>. (\<^verbatim>\<open>url\<close>, \<^verbatim>\<open>title\<close> and \<^verbatim>\<open>tags\<close> of the entry are prefixed, the item
  record has fields of these names.)\<close>

record json_entry =
  date_published :: "string option"
  content_html :: "string option"
  content_text :: "string option"
  json_url :: "string option"
  image :: "string option"
  json_title :: "string option"
  json_tags :: "string list option"

text \<open>\<^verbatim>\<open>new Object()\<close>: no property set.\<close>

definition new_Object :: item where
  "new_Object =
     \<lparr>read = False, feedTitle = None, feedId = None, datePublished = None, contentHtml = [],
      url = [], imageUrl = None, title = None, tags = []\<rparr>"

text \<open>Truthiness of a string or \<^verbatim>\<open>null\<close>: \<^verbatim>\<open>null\<close> and the empty string are falsy.\<close>

definition truthy :: "string option \<Rightarrow> bool" where
  "truthy s = (case s of None \<Rightarrow> False | Some t \<Rightarrow> t \<noteq> [])"

text \<open>\<^verbatim>\<open>parseJSONItem\<close>; \<open>None\<close> is the \<^verbatim>\<open>null\<close> it returns. \<open>rest\<close> is the code after the
  choice of the content.\<close>

definition parseJSONItem :: "json_entry \<Rightarrow> item option" where
  "parseJSONItem json =
     (let item = new_Object\<lparr>datePublished := Some (DateParse (date_published json))\<rparr>;
          rest = (\<lambda>item.
            if truthy (json_url json) then
              (let item = item\<lparr>url := the (json_url json)\<rparr>;
                   item = item\<lparr>imageUrl := image json\<rparr>;
                   item = item\<lparr>title := json_title json\<rparr>;
                   item = (case json_tags json of
                             Some ts \<Rightarrow> item\<lparr>tags := ts\<rparr>
                           | None \<Rightarrow> item\<lparr>tags := []\<rparr>)
               in Some item)
            else None)
      in if content_html json \<noteq> None then rest (item\<lparr>contentHtml := the (content_html json)\<rparr>)
         else if content_text json \<noteq> None
           then rest (item\<lparr>contentHtml := ''<p>'' @ the (content_text json) @ ''</p>''\<rparr>)
         else None)"

text \<open>
  An XML element as the parsers see it through the DOM: its local name (the selectors
  \<^verbatim>\<open>link\<close> and \<^verbatim>\<open>*|encoded\<close> match a local name in any namespace), its attributes and
  its children. \<^verbatim>\<open>querySelector\<close> returns the first descendant element, in document
  order, that matches; the selectors of the parsers are a tag name, or a tag name with
  one attribute value (\<^verbatim>\<open>link[rel=alternate]\<close>).
\<close>

datatype xml = Text string | Elem string "(string \<times> string) list" "xml list"

fun textContent :: "xml \<Rightarrow> string" where
  "textContent (Text t) = t"
| "textContent (Elem n as cs) = concat (map textContent cs)"

fun elements :: "xml \<Rightarrow> xml list" where
  "elements (Text t) = []"
| "elements (Elem n as cs) = Elem n as cs # concat (map elements cs)"

fun descendants :: "xml \<Rightarrow> xml list" where
  "descendants (Text t) = []"
| "descendants (Elem n as cs) = concat (map elements cs)"

datatype selector = Tag string | TagAttr string string string

fun matches :: "selector \<Rightarrow> xml \<Rightarrow> bool" where
  "matches s (Text t) = False"
| "matches (Tag n) (Elem n' as cs) = (n' = n)"
| "matches (TagAttr n a v) (Elem n' as cs) = (n' = n \<and> map_of as a = Some v)"

definition querySelector :: "xml \<Rightarrow> selector \<Rightarrow> xml option" where
  "querySelector elem sel = find (matches sel) (descendants elem)"

definition querySelectorAll :: "xml \<Rightarrow> selector \<Rightarrow> xml list" where
  "querySelectorAll elem sel = filter (matches sel) (descendants elem)"

fun getAttribute :: "xml \<Rightarrow> string \<Rightarrow> string option" where
  "getAttribute (Text t) a = None"
| "getAttribute (Elem n as cs) a = map_of as a"

text \<open>
  \<^verbatim>\<open>String.prototype.trim\<close> removes, at both ends, the white space and the line
  terminators of ECMAScript: U+0009 to U+000D, U+0020, U+00A0, U+1680, U+2000 to U+200A,
  U+2028, U+2029, U+202F, U+205F, U+3000 and U+FEFF. A string of the model is the text in
  UTF-8, one \<^typ>\<open>char\<close> a byte, so each of them is the byte sequence that encodes it.
  \<open>strip_start\<close> removes such sequences from the front for as long as there is one;
  the end is the front of the reversed string, with every sequence reversed.
\<close>

definition WhiteSpace :: "string list" where
  "WhiteSpace =
     [[CHR 0x09], [CHR 0x0A], [CHR 0x0B], [CHR 0x0C], [CHR 0x0D], [CHR 0x20],
      [CHR 0xC2, CHR 0xA0], [CHR 0xE1, CHR 0x9A, CHR 0x80],
      [CHR 0xE2, CHR 0x80, CHR 0x80], [CHR 0xE2, CHR 0x80, CHR 0x81],
      [CHR 0xE2, CHR 0x80, CHR 0x82], [CHR 0xE2, CHR 0x80, CHR 0x83],
      [CHR 0xE2, CHR 0x80, CHR 0x84], [CHR 0xE2, CHR 0x80, CHR 0x85],
      [CHR 0xE2, CHR 0x80, CHR 0x86], [CHR 0xE2, CHR 0x80, CHR 0x87],
      [CHR 0xE2, CHR 0x80, CHR 0x88], [CHR 0xE2, CHR 0x80, CHR 0x89],
      [CHR 0xE2, CHR 0x80, CHR 0x8A], [CHR 0xE2, CHR 0x80, CHR 0xA8],
      [CHR 0xE2, CHR 0x80, CHR 0xA9], [CHR 0xE2, CHR 0x80, CHR 0xAF],
      [CHR 0xE2, CHR 0x81, CHR 0x9F], [CHR 0xE3, CHR 0x80, CHR 0x80],
      [CHR 0xEF, CHR 0xBB, CHR 0xBF]]"

fun strip_start :: "string list \<Rightarrow> string \<Rightarrow> string" where
  "strip_start ws [] = []"
| "strip_start ws (c # s) =
     (case find (\<lambda>w. w \<noteq> [] \<and> take (length w) (c # s) = w) ws of
        None \<Rightarrow> c # s
      | Some w \<Rightarrow> strip_start ws (drop (length w - 1) s))"

definition trim :: "string \<Rightarrow> string" where
  "trim s = rev (strip_start (map rev WhiteSpace) (rev (strip_start WhiteSpace s)))"

definition getXMLTextContent :: "xml \<Rightarrow> selector \<Rightarrow> string option" where
  "getXMLTextContent elem sel =
     (case querySelector elem sel of Some sub \<Rightarrow> Some (trim (textContent sub)) | None \<Rightarrow> None)"

definition getXMLTextAttribute :: "xml \<Rightarrow> selector \<Rightarrow> string \<Rightarrow> string option" where
  "getXMLTextAttribute elem sel attr =
     (case querySelector elem sel of Some sub \<Rightarrow> getAttribute sub attr | None \<Rightarrow> None)"

text \<open>\<^verbatim>\<open>if (enclosure_type) { tokens = enclosure_type.split('/'); if (tokens[0] == 'image') ...\<close>\<close>

definition is_image :: "string option \<Rightarrow> bool" where
  "is_image ty = (truthy ty \<and> takeWhile (\<lambda>c. c \<noteq> CHR ''/'') (the ty) = ''image'')"

text \<open>\<^verbatim>\<open>parseRSS2Item\<close> and \<^verbatim>\<open>parseATOMItem\<close>. \<open>None\<close> is the \<^verbatim>\<open>null\<close> they return;
  \<^verbatim>\<open>parseATOMItem\<close> can also throw (\<^verbatim>\<open>throw null\<close>), so its result is a sum.\<close>

definition parseRSS2Item :: "xml \<Rightarrow> item option" where
  "parseRSS2Item elem =
     (let item = new_Object;
          pubDate = getXMLTextContent elem (Tag ''pubDate'');
          description = getXMLTextContent elem (Tag ''description'');
          content = getXMLTextContent elem (Tag ''encoded'');
          link = getXMLTextContent elem (Tag ''link'');
          title' = getXMLTextContent elem (Tag ''title'');
          enclosure = getXMLTextAttribute elem (Tag ''enclosure'') ''url'';
          enclosure_type = getXMLTextAttribute elem (Tag ''enclosure'') ''type'';
          tags' = map textContent (querySelectorAll elem (Tag ''category''));
          item = (if truthy pubDate then item\<lparr>datePublished := Some (DateParse pubDate)\<rparr>
                  else item);
          rest = (\<lambda>item.
            let item = (if is_image enclosure_type then item\<lparr>imageUrl := enclosure\<rparr> else item)
            in if truthy link then
                 (let item = item\<lparr>url := the link\<rparr>;
                      item = (if truthy title' then item\<lparr>title := title'\<rparr> else item)
                  in Some (item\<lparr>tags := tags'\<rparr>))
               else None)
      in if truthy content then rest (item\<lparr>contentHtml := the content\<rparr>)
         else if truthy description then rest (item\<lparr>contentHtml := the description\<rparr>)
         else None)"

definition parseATOMItem :: "xml \<Rightarrow> err + item option" where
  "parseATOMItem elem =
     (let item = new_Object;
          published = getXMLTextContent elem (Tag ''published'');
          updated = getXMLTextContent elem (Tag ''updated'');
          content = getXMLTextContent elem (Tag ''content'');
          summary = getXMLTextContent elem (Tag ''summary'');
          link = getXMLTextAttribute elem (Tag ''link'') ''href'';
          alternate = getXMLTextAttribute elem (TagAttr ''link'' ''rel'' ''alternate'') ''href'';
          enclosure = getXMLTextAttribute elem (TagAttr ''link'' ''rel'' ''enclosure'') ''href'';
          enclosure_type = getXMLTextAttribute elem (TagAttr ''link'' ''rel'' ''enclosure'') ''type'';
          title' = getXMLTextContent elem (Tag ''title'');
          tags' = map textContent (querySelectorAll elem (Tag ''category''));
          item = (if truthy published then item\<lparr>datePublished := Some (DateParse published)\<rparr>
                  else if truthy updated then item\<lparr>datePublished := Some (DateParse updated)\<rparr>
                  else item);
          finish = (\<lambda>item.
            let item = (if truthy title' then item\<lparr>title := title'\<rparr> else item)
            in Inr (Some (item\<lparr>tags := tags'\<rparr>)));
          rest = (\<lambda>item.
            let item = (if is_image enclosure_type then item\<lparr>imageUrl := enclosure\<rparr> else item)
            in if truthy alternate then finish (item\<lparr>url := the alternate\<rparr>)
               else if truthy link then finish (item\<lparr>url := the link\<rparr>)
               else Inr None)
      in if truthy content then rest (item\<lparr>contentHtml := the content\<rparr>)
         else if truthy summary then rest (item\<lparr>contentHtml := ''<p>'' @ the summary @ ''</p>''\<rparr>)
         else Inl ThrownNull)"

subsection \<open>Sample entries\<close>

definition atom_entry_no_body :: xml where
  "atom_entry_no_body =
     Elem ''entry'' []
       [Elem ''title'' [] [Text ''Hello''],
        Elem ''link'' [(''rel'', ''alternate''), (''href'', ''http://example.org/1'')] [],
        Elem ''updated'' [] [Text ''2020-01-01T00:00:00Z'']]"

definition rss_item_no_body :: xml where
  "rss_item_no_body =
     Elem ''item'' []
       [Elem ''title'' [] [Text ''Hello''],
        Elem ''link'' [] [Text ''http://example.org/1'']]"


definition json_text_only :: json_entry where
  "json_text_only =
     \<lparr>date_published = Some ''2020-01-01'', content_html = None, content_text = Some ''hi'',
      json_url = Some ''http://example.org/1'', image = None, json_title = Some ''Hello'',
      json_tags = None\<rparr>"

lemmas parse_defs =
  parseJSONItem_def parseRSS2Item_def parseATOMItem_def getXMLTextContent_def
  getXMLTextAttribute_def querySelector_def querySelectorAll_def truthy_def is_image_def
  trim_def WhiteSpace_def new_Object_def atom_entry_no_body_def rss_item_no_body_def
  json_text_only_def Let_def

subsection \<open>The content discipline\<close>

text \<open>
  Claim C7, as the code has it. A JSON Feed entry with only \<^verbatim>\<open>content_text\<close> (and a url)
  yields an item whose \<^verbatim>\<open>contentHtml\<close> is the text in a paragraph tag; a JSON Feed entry
  with neither \<^verbatim>\<open>content_html\<close> nor \<^verbatim>\<open>content_text\<close> yields no item; an RSS2 item with
  neither \<^verbatim>\<open>content:encoded\<close> nor \<^verbatim>\<open>description\<close> yields no item; an Atom entry with neither
  \<^verbatim>\<open>content\<close> nor \<^verbatim>\<open>summary\<close> does not yield the no-item result: \<^verbatim>\<open>parseATOMItem\<close> throws
  \<^verbatim>\<open>null\<close>.
\<close>

theorem normalizer_content_discipline:
  "(content_html j = None \<and> content_text j = Some t \<and> truthy (json_url j) \<longrightarrow>
      (\<exists>it. parseJSONItem j = Some it \<and> contentHtml it = ''<p>'' @ t @ ''</p>''))
   \<and> (content_html j = None \<and> content_text j = None \<longrightarrow> parseJSONItem j = None)
   \<and> (\<not> truthy (getXMLTextContent x (Tag ''encoded'')) \<and>
        \<not> truthy (getXMLTextContent x (Tag ''description'')) \<longrightarrow> parseRSS2Item x = None)
   \<and> (\<not> truthy (getXMLTextContent x (Tag ''content'')) \<and>
        \<not> truthy (getXMLTextContent x (Tag ''summary'')) \<longrightarrow>
          parseATOMItem x = Inl ThrownNull)"
  by (auto simp: parseJSONItem_def parseRSS2Item_def parseATOMItem_def Let_def
      split: option.splits)

theorem normalizer_content_discipline_witness:
  "(\<exists>it. parseJSONItem json_text_only = Some it \<and> contentHtml it = ''<p>hi</p>'')
   \<and> parseJSONItem (json_text_only\<lparr>content_text := None\<rparr>) = None
   \<and> parseRSS2Item rss_item_no_body = None
   \<and> parseATOMItem atom_entry_no_body = Inl ThrownNull"
proof -
  have j: "content_html json_text_only = None \<and> content_text json_text_only = Some ''hi''
      \<and> truthy (json_url json_text_only)"
    by (simp add: json_text_only_def truthy_def)
  have j0: "content_html (json_text_only\<lparr>content_text := None\<rparr>) = None
      \<and> content_text (json_text_only\<lparr>content_text := None\<rparr>) = None"
    by (simp add: json_text_only_def)
  have r: "\<not> truthy (getXMLTextContent rss_item_no_body (Tag ''encoded'')) \<and>
        \<not> truthy (getXMLTextContent rss_item_no_body (Tag ''description''))"
    by (simp add: parse_defs)
  have a: "\<not> truthy (getXMLTextContent atom_entry_no_body (Tag ''content'')) \<and>
        \<not> truthy (getXMLTextContent atom_entry_no_body (Tag ''summary''))"
    by (simp add: parse_defs)
  from j j0 r a
    normalizer_content_discipline [of json_text_only "''hi''" rss_item_no_body]
    normalizer_content_discipline [of "json_text_only\<lparr>content_text := None\<rparr>" _ atom_entry_no_body]
  show ?thesis by simp
qed

section \<open>The model layer (airss_model.js)\<close>

text \<open>What the model layer sends out, in order: the events it dispatches to the document
  (\<open>ModelAlert type text\<close>, \<open>ItemsLoaded length cursor\<close>, \<open>InitDone\<close>, \<open>ShutDown\<close>), its
  console lines (a line that prints a number is kept as a constructor with the number;
  \<open>Console level text\<close> is a line of text), and the call \<^verbatim>\<open>Loader.load()\<close> of the newer
  variant, which is not awaited.\<close>

datatype event =
    ModelAlert string string
  | ItemsLoaded int int
  | InitDone
  | ShutDown
  | LogLoading string
  | LogWith int
  | LogNotLoading string int
  | Console string string
  | LogLoaded string int int
  | LogItemsLoaded int int
  | LoaderLoad

text \<open>The values a chained step resolves to: \<^verbatim>\<open>null\<close> or \<^verbatim>\<open>undefined\<close> (the code never
  tells them apart), a boolean, or a stored item with its id.\<close>

datatype jsval = Null | Bool bool | ItemV key item

text \<open>The state of the model layer: the cursor store, the round-robin order of the feeds
  module, what was sent out so far, and \<^verbatim>\<open>state\<close>, the promise that the client side
  replaces with every call, as the outcome it settles to (\<open>Inl\<close> a rejection).\<close>

record orch = model +
  feedIds :: "key list"
  events :: "event list"
  state :: "err + jsval"

definition emit :: "event \<Rightarrow> orch \<Rightarrow> orch" where
  "emit ev m = m\<lparr>events := events m @ [ev]\<rparr>"

definition emitModelWarning :: "string \<Rightarrow> orch \<Rightarrow> orch" where
  "emitModelWarning text = emit (ModelAlert ''warning'' text)"

definition emitItemsLoaded :: "orch \<Rightarrow> orch" where
  "emitItemsLoaded m = emit (ItemsLoaded (length_items m) (readingCursor m)) m"

text \<open>The constants of \<^verbatim>\<open>src/airss_model.js\<close> (milliseconds).\<close>

definition WaterMark :: int where "WaterMark = 10"

definition MinReloadWait :: int where "MinReloadWait = 3600 * 1000"

text \<open>\<^verbatim>\<open>oopsItem()\<close> of items.js; the clock reading and the random string are arguments.\<close>

definition oopsItem :: "int \<Rightarrow> string \<Rightarrow> item" where
  "oopsItem now rnd =
     \<lparr>read = False, feedTitle = None, feedId = None, datePublished = Some (DateAt now),
      contentHtml = ''If you see this, this feed failed loading'', url = rnd, imageUrl = None,
      title = Some ''Oops...'', tags = []\<rparr>"

subsection \<open>The feeds module\<close>

text \<open>Modelled from the spec: \<^verbatim>\<open>Feeds.first()\<close> of feeds.js, which is not among the sources.
  Section 4.3: "peek the feed at the front of round-robin order, or nothing if no feeds".\<close>

definition Feeds_first :: "orch \<Rightarrow> key option" where
  "Feeds_first m = (case feedIds m of [] \<Rightarrow> None | k # ks \<Rightarrow> Some k)"

text \<open>Modelled from the spec: \<^verbatim>\<open>Feeds.rotate()\<close> of feeds.js, which is not among the sources.
  Section 4.3: "move the feed just polled to the back of the order"; the callers rotate
  right after they took the feed from \<^verbatim>\<open>Feeds.first()\<close>.\<close>

definition Feeds_rotate :: "orch \<Rightarrow> orch" where
  "Feeds_rotate m = (case feedIds m of [] \<Rightarrow> m | k # ks \<Rightarrow> m\<lparr>feedIds := ks @ [k]\<rparr>)"

text \<open>Modelled from the spec: \<^verbatim>\<open>Feeds.get(db, id)\<close> of feeds.js, a read of the feed store;
  \<open>Inr None\<close> is \<^verbatim>\<open>undefined\<close> for an id that is not stored.\<close>

definition Feeds_get :: "key \<Rightarrow> orch \<Rightarrow> err + feed option" where
  "Feeds_get k m = (case db m of None \<Rightarrow> Inl TypeError | Some d \<Rightarrow> Inr (map_of (feedRecs d) k))"

text \<open>A \<^verbatim>\<open>put\<close> on the feed store of the database.\<close>

definition idb_put_feed :: "idb \<Rightarrow> key \<Rightarrow> feed \<Rightarrow> idb" where
  "idb_put_feed d k f =
     d\<lparr>feedRecs := insort_key fst (k, f) (filter (\<lambda>r. fst r \<noteq> k) (feedRecs d))\<rparr>"

text \<open>Modelled from the spec: \<^verbatim>\<open>Feeds.updateFeed\<close> and \<^verbatim>\<open>Feeds.touchFeed\<close> of feeds.js, which
  is not among the sources. Section 4.3: \<^verbatim>\<open>updateFeed\<close> persists the full record,
  \<^verbatim>\<open>touchFeed\<close> persists only \<^verbatim>\<open>lastLoadTime\<close>.\<close>

definition Feeds_updateFeed :: "key \<Rightarrow> feed \<Rightarrow> orch \<Rightarrow> (err + unit) \<times> orch" where
  "Feeds_updateFeed k f m =
     (case db m of
        None \<Rightarrow> (Inl TypeError, m)
      | Some d \<Rightarrow> (Inr (), m\<lparr>db := Some (idb_put_feed d k f)\<rparr>))"

definition Feeds_touchFeed :: "key \<Rightarrow> feed \<Rightarrow> orch \<Rightarrow> (err + unit) \<times> orch" where
  "Feeds_touchFeed k f m =
     (case db m of
        None \<Rightarrow> (Inl TypeError, m)
      | Some d \<Rightarrow>
         (case map_of (feedRecs d) k of
            None \<Rightarrow> (Inr (), m)
          | Some old \<Rightarrow>
              (Inr (), m\<lparr>db := Some (idb_put_feed d k (old\<lparr>lastLoadTime := lastLoadTime f\<rparr>))\<rparr>)))"

text \<open>What the world answers: the fetch of a feed at a time (an error text, or the
  normalized entries in the order of the document) and \<^verbatim>\<open>Math.random\<close> as a string.\<close>

record env =
  fetch :: "key \<Rightarrow> int \<Rightarrow> string + item list"
  random :: "int \<Rightarrow> string"

text \<open>Modelled from the spec: \<^verbatim>\<open>Feeds.loadItems(db, feed)\<close> of feeds.js, which is not among
  the sources. Section 4.4: after a poll attempt "always update lastLoadTime"; "on
  fetch error, synthesize a single visible item on that feed's behalf" (the \<^verbatim>\<open>oopsItem\<close>
  that items.js exports), otherwise the normalized entries.\<close>

definition Feeds_loadItems ::
  "env \<Rightarrow> int \<Rightarrow> key \<Rightarrow> feed \<Rightarrow> orch \<Rightarrow> (err + item list) \<times> orch" where
  "Feeds_loadItems e now k f m =
     (case Feeds_updateFeed k (f\<lparr>lastLoadTime := now\<rparr>) m of
        (Inl x, m1) \<Rightarrow> (Inl x, m1)
      | (Inr u, m1) \<Rightarrow>
          (case fetch e k now of
             Inl msg \<Rightarrow> (Inr [oopsItem now (random e now)], m1)
           | Inr its \<Rightarrow> (Inr its, m1)))"

text \<open>Modelled from the spec: \<^verbatim>\<open>Feeds.load(db)\<close> of feeds.js, which is not among the sources:
  the round-robin order starts as the stored feeds in key order.\<close>

definition Feeds_load :: "orch \<Rightarrow> (err + unit) \<times> orch" where
  "Feeds_load m =
     (case db m of
        None \<Rightarrow> (Inl TypeError, m)
      | Some d \<Rightarrow> (Inr (), m\<lparr>feedIds := map fst (feedRecs d)\<rparr>))"

subsection \<open>The scheduler of the older variant\<close>

definition shouldLoadMore :: "orch \<Rightarrow> bool" where
  "shouldLoadMore m = (unreadCount m < WaterMark)"

text \<open>\<^verbatim>\<open>loadFeed(feedId)\<close>; \<open>now\<close> is its reading of the clock. A feed that
  \<^verbatim>\<open>Feeds.get\<close> does not find makes \<^verbatim>\<open>feed.lastLoadTime\<close> a \<^verbatim>\<open>TypeError\<close>.\<close>

definition loadFeed :: "env \<Rightarrow> int \<Rightarrow> key \<Rightarrow> orch \<Rightarrow> (err + int) \<times> orch" where
  "loadFeed e now feedId' m =
     (case Feeds_get feedId' m of
        Inl x \<Rightarrow> (Inl x, m)
      | Inr None \<Rightarrow> (Inl TypeError, m)
      | Inr (Some f) \<Rightarrow>
          if lastLoadTime f \<le> now - MinReloadWait then
            (let m = emit (LogLoading (feedUrl f)) m in
             case Feeds_loadItems e now feedId' f m of
               (Inl x, m) \<Rightarrow> (Inl x, m)
             | (Inr newItems, m) \<Rightarrow>
                 (let oldCount = length_items m in
                  case push_loop (rev newItems) m of
                    (Inl x, m) \<Rightarrow> (Inl x, m)
                  | (Inr u, m) \<Rightarrow>
                      (let num = length_items m - oldCount;
                           m = emit (LogWith num) m;
                           m = Feeds_rotate m;
                           m = (if num > 0 then emitItemsLoaded m else m)
                       in (Inr num, m))))
          else (Inr (-1), emit (LogNotLoading (feedUrl f) (lastLoadTime f)) m))"

text \<open>\<^verbatim>\<open>loadMore()\<close>. \<open>loadMore_num\<close> is the body of its loop,
  \<^verbatim>\<open>var num = feedId ? (await loadFeed(feedId)) : -1\<close>. The loop may run for as long as
  feeds keep coming up for reload, and every round with a feed reads the clock once: the
  function takes the readings of the clock, and is \<open>None\<close> when the loop is still
  running after the last of them.\<close>

definition loadMore_num :: "env \<Rightarrow> int \<Rightarrow> orch \<Rightarrow> (err + int) \<times> orch" where
  "loadMore_num e now m =
     (case Feeds_first m of None \<Rightarrow> (Inr (-1), m) | Some feedId' \<Rightarrow> loadFeed e now feedId' m)"

fun loadMore :: "env \<Rightarrow> int list \<Rightarrow> orch \<Rightarrow> ((err + unit) \<times> orch) option" where
  "loadMore e [] m = (case Feeds_first m of None \<Rightarrow> Some (Inr (), m) | Some k \<Rightarrow> None)"
| "loadMore e (now # later) m =
     (case loadMore_num e now m of
        (Inl x, m1) \<Rightarrow> Some (Inl x, m1)
      | (Inr num, m1) \<Rightarrow>
          if num \<ge> 0 \<and> shouldLoadMore m1 then loadMore e later m1 else Some (Inr (), m1))"

subsection \<open>The chained steps of the older variant\<close>

text \<open>\<^verbatim>\<open>await prev\<close> at the head of an async function: when \<^verbatim>\<open>prev\<close> is rejected the
  \<^verbatim>\<open>await\<close> throws its reason, and as no step catches it there, the step is rejected with
  it; otherwise the body runs with the value.\<close>

definition await ::
  "err + jsval \<Rightarrow> orch \<Rightarrow> (jsval \<Rightarrow> orch \<Rightarrow> (err + jsval) \<times> orch) \<Rightarrow> (err + jsval) \<times> orch" where
  "await prev m body = (case prev of Inl x \<Rightarrow> (Inl x, m) | Inr v \<Rightarrow> body v m)"

text \<open>What \<^verbatim>\<open>Items.getCurrentItem(db)\<close> resolves to, as a value of the chain.\<close>

definition item_value :: "err + (key \<times> item) option \<Rightarrow> err + jsval" where
  "item_value r =
     (case r of Inl x \<Rightarrow> Inl x | Inr None \<Rightarrow> Inr Null | Inr (Some ki) \<Rightarrow> Inr (ItemV (fst ki) (snd ki)))"

text \<open>The callbacks. In \<^verbatim>\<open>cb_markRead\<close> the awaited value is the item; a \<^verbatim>\<open>true\<close> there
  would make \<^verbatim>\<open>item.read = true\<close> a \<^verbatim>\<open>TypeError\<close> (the module is strict code).\<close>

definition cb_shutdown :: "err + jsval \<Rightarrow> orch \<Rightarrow> (err + jsval) \<times> orch" where
  "cb_shutdown prev m =
     await prev m (\<lambda>v m.
       case db m of
         None \<Rightarrow> (Inl TypeError, m)
       | Some d \<Rightarrow> (Inr Null, emit ShutDown (m\<lparr>db := None\<rparr>)))"

definition cb_currentItem :: "err + jsval \<Rightarrow> orch \<Rightarrow> (err + jsval) \<times> orch" where
  "cb_currentItem prev m = await prev m (\<lambda>v m. (item_value (getCurrentItem m), m))"

definition cb_forwardItem :: "err + jsval \<Rightarrow> orch \<Rightarrow> (err + jsval) \<times> orch" where
  "cb_forwardItem prev m =
     await prev m (\<lambda>v m.
       case forwardCursor m of
         (False, m) \<Rightarrow> (Inr Null, emitModelWarning ''Already at the end'' m)
       | (True, m) \<Rightarrow> (item_value (getCurrentItem m), m))"

definition cb_backwardItem :: "err + jsval \<Rightarrow> orch \<Rightarrow> (err + jsval) \<times> orch" where
  "cb_backwardItem prev m =
     await prev m (\<lambda>v m.
       case backwardCursor m of
         (False, m) \<Rightarrow> (Inr Null, emitModelWarning ''Already at the beginning'' m)
       | (True, m) \<Rightarrow> (item_value (getCurrentItem m), m))"

definition cb_deleteItem :: "err + jsval \<Rightarrow> orch \<Rightarrow> (err + jsval) \<times> orch" where
  "cb_deleteItem prev m =
     await prev m (\<lambda>v m.
       case deleteCurrentItem m of (Inl x, m) \<Rightarrow> (Inl x, m) | (Inr b, m) \<Rightarrow> (Inr (Bool b), m))"

definition cb_loadMore ::
  "env \<Rightarrow> int list \<Rightarrow> err + jsval \<Rightarrow> orch \<Rightarrow> ((err + jsval) \<times> orch) option" where
  "cb_loadMore e clock prev m =
     (case prev of
        Inl x \<Rightarrow> Some (Inl x, m)
      | Inr v \<Rightarrow>
          if shouldLoadMore m then
            (case loadMore e clock m of
               None \<Rightarrow> None
             | Some (Inl x, m) \<Rightarrow> Some (Inl x, m)
             | Some (Inr u, m) \<Rightarrow> Some (Inr Null, m))
          else Some (Inr Null, m))"

definition cb_markRead :: "err + jsval \<Rightarrow> orch \<Rightarrow> (err + jsval) \<times> orch" where
  "cb_markRead prev m =
     await prev m (\<lambda>item m.
       case item of
         Null \<Rightarrow> (Inr Null, m)
       | Bool b \<Rightarrow> if b then (Inl TypeError, m) else (Inr Null, m)
       | ItemV k it \<Rightarrow>
           (case markRead (k, it) m of (Inl x, m) \<Rightarrow> (Inl x, m) | (Inr u, m) \<Rightarrow> (Inr Null, m)))"

text \<open>\<^verbatim>\<open>init()\<close>, over the database that \<^verbatim>\<open>openDB\<close> opens.\<close>

definition init :: "idb \<Rightarrow> orch" where
  "init d =
     (let m = \<lparr>db = Some d, items = [], reading = -1, known = -1, feedIds = [], events = [],
               state = Inr Null\<rparr>;
          m = snd (Feeds_load m);
          m = snd (load m);
          m = emitItemsLoaded m
      in emit InitDone m)"

text \<open>The client side: each function replaces \<^verbatim>\<open>state\<close> with the promise of its step and
  returns a promise; the steps run in the order of the calls, each after the one before
  it has settled. The functions that chain \<^verbatim>\<open>cb_loadMore\<close> take the readings of the clock.
  (\<^verbatim>\<open>subscribe\<close>, \<^verbatim>\<open>unsubscribe\<close> and \<^verbatim>\<open>reinit\<close> are left out: they rest on
  \<^verbatim>\<open>Feeds.sanitize\<close>, \<^verbatim>\<open>Feeds.addFeed\<close>, \<^verbatim>\<open>Feeds.removeFeed\<close> and \<^verbatim>\<open>cb_reinit\<close>, none of
  which is among the sources.)\<close>

definition forwardItem :: "env \<Rightarrow> int list \<Rightarrow> orch \<Rightarrow> ((err + jsval) \<times> orch) option" where
  "forwardItem e clock m =
     (case cb_forwardItem (state m) m of (value, m) \<Rightarrow>
      case cb_markRead value (m\<lparr>state := value\<rparr>) of (r, m) \<Rightarrow>
      case cb_loadMore e clock r (m\<lparr>state := r\<rparr>) of
        None \<Rightarrow> None
      | Some (r, m) \<Rightarrow> Some (value, m\<lparr>state := r\<rparr>))"

definition backwardItem :: "orch \<Rightarrow> (err + jsval) \<times> orch" where
  "backwardItem m = (case cb_backwardItem (state m) m of (r, m) \<Rightarrow> (r, m\<lparr>state := r\<rparr>))"

definition deleteItem :: "orch \<Rightarrow> (err + jsval) \<times> orch" where
  "deleteItem m = (case cb_deleteItem (state m) m of (r, m) \<Rightarrow> (r, m\<lparr>state := r\<rparr>))"

definition currentItem :: "env \<Rightarrow> int list \<Rightarrow> orch \<Rightarrow> ((err + jsval) \<times> orch) option" where
  "currentItem e clock m =
     (case cb_currentItem (state m) m of (value, m) \<Rightarrow>
      case cb_loadMore e clock value (m\<lparr>state := value\<rparr>) of
        None \<Rightarrow> None
      | Some (r, m) \<Rightarrow> Some (value, m\<lparr>state := r\<rparr>))"

definition shutdown :: "orch \<Rightarrow> (err + jsval) \<times> orch" where
  "shutdown m = (case cb_shutdown (state m) m of (r, m) \<Rightarrow> (r, m\<lparr>state := r\<rparr>))"

datatype call = ForwardItem "int list" | BackwardItem | DeleteItem | CurrentItem "int list" | Shutdown

fun api :: "env \<Rightarrow> call \<Rightarrow> orch \<Rightarrow> ((err + jsval) \<times> orch) option" where
  "api e (ForwardItem clock) m = forwardItem e clock m"
| "api e BackwardItem m = Some (backwardItem m)"
| "api e DeleteItem m = Some (deleteItem m)"
| "api e (CurrentItem clock) m = currentItem e clock m"
| "api e Shutdown m = Some (shutdown m)"

fun api_all :: "env \<Rightarrow> call list \<Rightarrow> orch \<Rightarrow> ((err + jsval) list \<times> orch) option" where
  "api_all e [] m = Some ([], m)"
| "api_all e (c # cs) m =
     (case api e c m of
        None \<Rightarrow> None
      | Some (r, m1) \<Rightarrow>
          (case api_all e cs m1 of None \<Rightarrow> None | Some (rs, m2) \<Rightarrow> Some (r # rs, m2)))"

subsection \<open>The newer variant of the model layer\<close>

text \<open>Its constants come from \<^verbatim>\<open>localStorage\<close>, with defaults; \<^verbatim>\<open>MinReloadWait\<close> is in hours
  and \<^verbatim>\<open>MaxKeptPeriod\<close> in days.\<close>

record settings =
  WATER_MARK :: int
  MIN_RELOAD_WAIT :: int
  MAX_KEPT_PERIOD :: int

definition default_settings :: settings where
  "default_settings = \<lparr>WATER_MARK = 10, MIN_RELOAD_WAIT = 12, MAX_KEPT_PERIOD = 180\<rparr>"

text \<open>A whole number in a string concatenation.\<close>

fun show_nat :: "nat \<Rightarrow> string" where
  "show_nat n =
     (if n < 10 then [char_of (n + 48)] else show_nat (n div 10) @ [char_of (n mod 10 + 48)])"

definition show_int :: "int \<Rightarrow> string" where
  "show_int i = (if i < 0 then ''-'' @ show_nat (nat (- i)) else show_nat (nat i))"

text \<open>\<^verbatim>\<open>emitModelError\<close> and \<^verbatim>\<open>emitModelItemsLoaded\<close> of the newer variant also write to
  the console.\<close>

definition emitModelError :: "string \<Rightarrow> orch \<Rightarrow> orch" where
  "emitModelError text m = emit (ModelAlert ''error'' text) (emit (Console ''error'' text) m)"

definition emitModelItemsLoaded :: "orch \<Rightarrow> orch" where
  "emitModelItemsLoaded m =
     emit (ItemsLoaded (length_items m) (readingCursor m))
       (emit (LogItemsLoaded (readingCursor m) (length_items m)) m)"

text \<open>\<^verbatim>\<open>oopsItem(feed)\<close> and \<^verbatim>\<open>dummyItem(feed)\<close> of the newer variant (\<open>CHR 0x27\<close> is the
  single quote); the feed object carries its \<^verbatim>\<open>id\<close>, here the key.\<close>

definition oopsItem_feed :: "int \<Rightarrow> string \<Rightarrow> key \<times> feed \<Rightarrow> item" where
  "oopsItem_feed now rnd kf =
     \<lparr>read = False, feedTitle = feedName (snd kf), feedId = Some (fst kf),
      datePublished = Some (DateAt now),
      contentHtml = ''If you see this, this feed '' @ [CHR 0x27] @ feedUrl (snd kf) @ [CHR 0x27] @
        '' failed loading:'' @ ''Check the console for the detail error.'',
      url = rnd, imageUrl = None, title = Some ''Oops...'', tags = [''_error'']\<rparr>"

definition dummyItem :: "settings \<Rightarrow> int \<Rightarrow> string \<Rightarrow> key \<times> feed \<Rightarrow> item" where
  "dummyItem cfg now rnd kf =
     \<lparr>read = False, feedTitle = feedName (snd kf), feedId = Some (fst kf),
      datePublished = Some (DateAt now),
      contentHtml = ''If you see this, this feed '' @ [CHR 0x27] @ feedUrl (snd kf) @ [CHR 0x27] @
        '' hasn'' @ [CHR 0x27] @ ''t been updated for '' @ show_int (MAX_KEPT_PERIOD cfg) @
        '' days. There is nothing wrong, just too quiet.'',
      url = rnd, imageUrl = None, title = Some ''Errrr...'', tags = [''_error'']\<rparr>"

text \<open>\<^verbatim>\<open>cb_updateFeed(prev, feed, items)\<close>. It reads the clock twice: \<open>now\<close> is
  \<^verbatim>\<open>let now = new Date()\<close> before the pushes, \<open>now_item\<close> is the \<^verbatim>\<open>new Date()\<close> inside
  \<^verbatim>\<open>oopsItem(feed)\<close> or \<^verbatim>\<open>dummyItem(feed)\<close>, after them. \<open>finish\<close> is the code from
  \<^verbatim>\<open>feed.lastLoadTime = now\<close> on, with the value of \<^verbatim>\<open>num\<close> and the feed as they are there.\<close>

definition cb_updateFeed ::
  "settings \<Rightarrow> int \<Rightarrow> int \<Rightarrow> string \<Rightarrow> err + jsval \<Rightarrow> key \<times> feed \<Rightarrow> item list \<Rightarrow> orch
     \<Rightarrow> (err + jsval) \<times> orch" where
  "cb_updateFeed cfg now now_item rnd prev kf its m =
     await prev m (\<lambda>v m.
       let oldCount = length_items m;
           finish = (\<lambda>num f m.
             let f = f\<lparr>lastLoadTime := now\<rparr> in
             case (if num > 0
                   then (case Feeds_updateFeed (fst kf) f m of
                           (Inl x, m) \<Rightarrow> (Inl x, m)
                         | (Inr u, m) \<Rightarrow> (Inr u, emitModelItemsLoaded m))
                   else Feeds_touchFeed (fst kf) f m) of
               (Inl x, m) \<Rightarrow> (Inl x, m)
             | (Inr u, m) \<Rightarrow> (Inr Null, emit LoaderLoad m))
       in case push_loop (rev its) m of
            (Inl x, m) \<Rightarrow> (Inl x, m)
          | (Inr u, m) \<Rightarrow>
              (let num = length_items m - oldCount;
                   m = emit (LogLoaded (feedUrl (snd kf)) num (int (length its))) m
               in if truthy (error (snd kf)) then
                    (let m = emitModelError
                               (''The feed '' @ [CHR 0x27] @ feedUrl (snd kf) @ [CHR 0x27] @
                                '' faild to load'') m;
                         m = emit (Console ''error''
                               (''The feed '' @ [CHR 0x27] @ feedUrl (snd kf) @ [CHR 0x27] @
                                '' faild to load: '' @ the (error (snd kf)))) m
                     in case pushItem (oopsItem_feed now_item rnd kf) m of
                          (Inl x, m) \<Rightarrow> (Inl x, m)
                        | (Inr u, m) \<Rightarrow> finish (num + 1) ((snd kf)\<lparr>error := None\<rparr>) m)
                  else if num = 0 \<and>
                      lastLoadTime (snd kf) < now - MAX_KEPT_PERIOD cfg * 24 * 3600 * 1000 then
                    (case pushItem (dummyItem cfg now_item rnd kf) m of
                       (Inl x, m) \<Rightarrow> (Inl x, m)
                     | (Inr u, m) \<Rightarrow> finish (num + 1) (snd kf) m)
                  else finish num (snd kf) m))"

text \<open>\<^verbatim>\<open>cb_getLoadCandidate(prev)\<close>; \<open>Inr None\<close> is the \<^verbatim>\<open>null\<close> it returns.\<close>

definition cb_getLoadCandidate ::
  "settings \<Rightarrow> int \<Rightarrow> err + jsval \<Rightarrow> orch \<Rightarrow> (err + (key \<times> feed) option) \<times> orch" where
  "cb_getLoadCandidate cfg now prev m =
     (case prev of
        Inl x \<Rightarrow> (Inl x, m)
      | Inr v \<Rightarrow>
          if unreadCount m \<ge> WATER_MARK cfg then (Inr None, m)
          else case Feeds_first m of
            None \<Rightarrow> (Inr None, m)
          | Some feedId' \<Rightarrow>
              (case Feeds_get feedId' m of
                 Inl x \<Rightarrow> (Inl x, m)
               | Inr None \<Rightarrow> (Inl TypeError, m)
               | Inr (Some f) \<Rightarrow>
                   if lastLoadTime f > now - MIN_RELOAD_WAIT cfg * 3600 * 1000 then (Inr None, m)
                   else (Inr (Some (feedId', f)), Feeds_rotate m)))"

subsection \<open>Sample feeds\<close>

definition feed_a :: feed where
  "feed_a = \<lparr>feedUrl = ''http://a.example/feed'', feedName = Some ''A'', lastLoadTime = 9000000,
     error = None\<rparr>"

definition feed_b :: feed where
  "feed_b = \<lparr>feedUrl = ''http://b.example/feed'', feedName = Some ''B'', lastLoadTime = 0,
     error = None\<rparr>"

definition feeds_db :: idb where
  "feeds_db = sample_db\<lparr>feedRecs := [(1, feed_a), (2, feed_b)]\<rparr>"

definition sample_env :: env where
  "sample_env = \<lparr>fetch = (\<lambda>k now. Inr [sample_item ''n2'' False, sample_item ''n1'' False]),
     random = (\<lambda>now. ''r4nd0m'')\<rparr>"

definition no_env :: env where
  "no_env = \<lparr>fetch = (\<lambda>k now. Inr []), random = (\<lambda>now. ''r'')\<rparr>"

section \<open>Properties of the model layer\<close>

text \<open>The state after two \<^verbatim>\<open>shutdown()\<close> calls on the sample database: the second one
  finds \<^verbatim>\<open>db\<close> null, and its step is rejected with a \<^verbatim>\<open>TypeError\<close>.\<close>

definition closed_twice :: orch where
  "closed_twice = snd (shutdown (snd (shutdown (init sample_db))))"

text \<open>The feeds that \<^verbatim>\<open>loadFeed\<close> polled, in order, read off its console lines
  ("loading feed ...").\<close>

fun polled :: "event list \<Rightarrow> string list" where
  "polled [] = []"
| "polled (LogLoading u # es) = u # polled es"
| "polled (ev # es) = polled es"

text \<open>Whether a text occurs in a string; a feed whose fetch failed; the items in the
  store, in key order.\<close>

fun contains_text :: "string \<Rightarrow> string \<Rightarrow> bool" where
  "contains_text [] t = (t = [])"
| "contains_text (c # s) t = (take (length t) (c # s) = t \<or> contains_text s t)"

definition failed_feed :: feed where
  "failed_feed = feed_b\<lparr>error := Some ''NetworkError: timeout''\<rparr>"

definition stored_items :: "orch \<Rightarrow> item list" where
  "stored_items m = (case db m of None \<Rightarrow> [] | Some d \<Rightarrow> map snd (recs d))"

lemmas orch_defs =
  init_def Feeds_load_def emit_def emitItemsLoaded_def emitModelWarning_def shutdown_def
  backwardItem_def cb_shutdown_def cb_backwardItem_def await_def closed_twice_def

lemmas sched_defs =
  feeds_db_def feed_a_def feed_b_def failed_feed_def sample_env_def no_env_def
  default_settings_def MinReloadWait_def WaterMark_def shouldLoadMore_def loadFeed_def
  loadMore_num_def Feeds_first_def Feeds_rotate_def Feeds_get_def Feeds_updateFeed_def
  Feeds_touchFeed_def Feeds_loadItems_def idb_put_feed_def cb_getLoadCandidate_def
  cb_updateFeed_def emitModelError_def emitModelItemsLoaded_def oopsItem_feed_def
  oopsItem_def stored_items_def truthy_def

subsection \<open>The chain of steps\<close>

lemma await_rejected: "await (Inl x) m body = (Inl x, m)"
  by (simp add: await_def)

lemma orch_state_id: "state m = r \<Longrightarrow> m\<lparr>state := r\<rparr> = m"
  by (cases m) auto

text \<open>  Claim C1, as amended. When the promise \<^verbatim>\<open>state\<close> is rejected (a chained step has thrown
  an error it did not catch), every later call of the client side returns a promise
  rejected with the same error and changes nothing: no cursor move, no access to the store,
  no event, and \<^verbatim>\<open>state\<close> stays rejected, for any sequence of calls; in particular
  \<^verbatim>\<open>cb_markRead\<close> and \<^verbatim>\<open>cb_loadMore\<close>, chained after a rejected \<^verbatim>\<open>cb_forwardItem\<close>, are
  rejected with its error.\<close>

theorem chain_rejection_propagates:
  assumes "state m = Inl x"
  shows "api e c m = Some (Inl x, m)
    \<and> api_all e cs m = Some (replicate (length cs) (Inl x), m)
    \<and> cb_markRead (Inl x) m = (Inl x, m)
    \<and> cb_loadMore e clock (Inl x) m = Some (Inl x, m)"
proof -
  have one: "api e c m = Some (Inl x, m)" for c
    using assms
    by (cases c)
       (simp_all add: forwardItem_def backwardItem_def deleteItem_def currentItem_def
          shutdown_def cb_forwardItem_def cb_backwardItem_def cb_deleteItem_def
          cb_currentItem_def cb_shutdown_def cb_markRead_def cb_loadMore_def await_rejected
          orch_state_id)
  have many: "api_all e cs m = Some (replicate (length cs) (Inl x), m)"
    by (induction cs) (simp_all add: one)
  show ?thesis
    by (simp add: one many cb_markRead_def cb_loadMore_def await_rejected)
qed

theorem chain_rejection_propagates_witness:
  "state closed_twice = Inl TypeError
   \<and> api no_env (ForwardItem []) closed_twice = Some (Inl TypeError, closed_twice)
   \<and> api_all no_env [BackwardItem, DeleteItem, CurrentItem [], Shutdown] closed_twice =
       Some ([Inl TypeError, Inl TypeError, Inl TypeError, Inl TypeError], closed_twice)"
proof -
  have s: "state closed_twice = Inl TypeError"
    by (simp add: orch_defs eval_defs)
  from chain_rejection_propagates [OF s, of no_env "ForwardItem []"
      "[BackwardItem, DeleteItem, CurrentItem [], Shutdown]"] s
  show ?thesis by simp
qed

text \<open>  The claim as written (the next chained operation still performs its own work and
  produces its own result) fails: after a second \<^verbatim>\<open>shutdown()\<close> has been rejected with a
  \<^verbatim>\<open>TypeError\<close>, \<^verbatim>\<open>backwardItem()\<close> is rejected with that \<^verbatim>\<open>TypeError\<close> and sends no event,
  while the work of its step on that state, had its predecessor been fulfilled, is the
  warning "Already at the beginning" and the result \<^verbatim>\<open>null\<close>.\<close>

theorem chain_poisoned_counterexample:
  "state closed_twice = Inl TypeError
   \<and> backwardItem closed_twice = (Inl TypeError, closed_twice)
   \<and> cb_backwardItem (Inr Null) closed_twice =
       (Inr Null,
        closed_twice\<lparr>events := events closed_twice @
          [ModelAlert ''warning'' ''Already at the beginning'']\<rparr>)"
  by (simp add: orch_defs eval_defs)

text \<open>Inside \<^verbatim>\<open>forwardItem()\<close>: when the step \<^verbatim>\<open>cb_forwardItem\<close> is rejected, so are the
  two steps chained after it, and \<^verbatim>\<open>state\<close> ends rejected with the same error.\<close>

lemma forwardItem_rejected:
  assumes "cb_forwardItem (state m) m = (Inl x, m1)"
  shows "forwardItem e clock m = Some (Inl x, m1\<lparr>state := Inl x\<rparr>)"
  using assms
  by (simp add: forwardItem_def cb_markRead_def cb_loadMore_def await_rejected)

subsection \<open>The scheduler\<close>

lemma polled_append: "polled (xs @ ys) = polled xs @ polled ys"
  by (induction xs rule: polled.induct) simp_all

lemma pushItem_shape:
  assumes "db m = Some d"
  shows "\<exists>d' its. snd (pushItem it m) = m\<lparr>db := Some d', items := items m @ its\<rparr>
      \<and> feedRecs d' = feedRecs d
      \<and> (fst (pushItem it m) = Inr () \<or> fst (pushItem it m) = Inl DOMException)"
proof (cases "idb_add d it")
  case (Inl x)
  then have x: "x = DOMException" by (simp add: idb_add_def split: if_splits)
  have "m\<lparr>db := Some d, items := items m @ []\<rparr> = m" using assms by simp
  with Inl x assms show ?thesis
    by (intro exI [of _ d] exI [of _ "[]"]) (simp add: pushItem_def)
next
  case (Inr kd)
  obtain k d' where kd: "kd = (k, d')" by (cases kd)
  from Inr kd have f: "feedRecs d' = feedRecs d"
    by (auto simp: idb_add_def split: if_splits)
  from Inr kd assms f show ?thesis
    by (intro exI [of _ d'] exI [of _ "[k]"]) (simp add: pushItem_def)
qed

lemma push_loop_shape:
  "db m = Some d \<Longrightarrow>
   \<exists>d' its. push_loop xs m = (Inr (), m\<lparr>db := Some d', items := items m @ its\<rparr>)
      \<and> feedRecs d' = feedRecs d"
proof (induction xs arbitrary: m d)
  case Nil
  have "m\<lparr>db := Some d, items := items m @ []\<rparr> = m" using Nil by simp
  then show ?case by (intro exI [of _ d] exI [of _ "[]"]) simp
next
  case (Cons x xs)
  from pushItem_shape [OF Cons.prems, of x] obtain d1 its1 where
    s: "snd (pushItem x m) = m\<lparr>db := Some d1, items := items m @ its1\<rparr>"
    and f: "feedRecs d1 = feedRecs d"
    and r: "fst (pushItem x m) = Inr () \<or> fst (pushItem x m) = Inl DOMException"
    by blast
  let ?m1 = "m\<lparr>db := Some d1, items := items m @ its1\<rparr>"
  have "db ?m1 = Some d1" by simp
  from Cons.IH [OF this] obtain d2 its2 where
    l: "push_loop xs ?m1 = (Inr (), ?m1\<lparr>db := Some d2, items := items ?m1 @ its2\<rparr>)"
    and f2: "feedRecs d2 = feedRecs d1" by blast
  have step: "push_loop (x # xs) m = push_loop xs ?m1"
    using s r by (cases "pushItem x m") auto
  have "push_loop (x # xs) m = (Inr (), m\<lparr>db := Some d2, items := items m @ (its1 @ its2)\<rparr>)"
    unfolding step l by simp
  with f f2 show ?case by metis
qed

lemma map_of_filter_fst: "map_of (filter (\<lambda>r. fst r \<noteq> k) xs) a = (if a = k then None else map_of xs a)"
  by (induction xs) auto

lemma map_of_insort_key_fst:
  "map_of (insort_key fst (k, v) xs) a = (if a = k then map_of ((k, v) # xs) a else map_of xs a)"
  by (induction xs) auto

lemma map_of_put_feed:
  "map_of (feedRecs (idb_put_feed d k f)) a = (if a = k then Some f else map_of (feedRecs d) a)"
  by (simp add: idb_put_feed_def map_of_insort_key_fst map_of_filter_fst)

lemma loadFeed_waiting:
  assumes "db m = Some d" and "map_of (feedRecs d) a = Some fa"
    and "now - MinReloadWait < lastLoadTime fa"
  shows "loadFeed e now a m = (Inr (-1), emit (LogNotLoading (feedUrl fa) (lastLoadTime fa)) m)"
  using assms by (simp add: loadFeed_def Feeds_get_def)

lemma loadFeed_eligible:
  assumes "db m = Some d" and "map_of (feedRecs d) b = Some fb"
    and "lastLoadTime fb \<le> now - MinReloadWait"
  shows "\<exists>num m1 d1. loadFeed e now b m = (Inr num, m1) \<and> 0 \<le> num
      \<and> feedIds m1 = feedIds (Feeds_rotate m)
      \<and> polled (events m1) = polled (events m) @ [feedUrl fb]
      \<and> db m1 = Some d1
      \<and> (\<forall>a. a \<noteq> b \<longrightarrow> map_of (feedRecs d1) a = map_of (feedRecs d) a)"
proof -
  let ?d0 = "idb_put_feed d b (fb\<lparr>lastLoadTime := now\<rparr>)"
  let ?m0 = "(emit (LogLoading (feedUrl fb)) m)\<lparr>db := Some ?d0\<rparr>"
  obtain newItems where li:
    "Feeds_loadItems e now b fb (emit (LogLoading (feedUrl fb)) m) = (Inr newItems, ?m0)"
    using assms(1)
    by (cases "fetch e b now") (simp_all add: Feeds_loadItems_def Feeds_updateFeed_def emit_def)
  have "db ?m0 = Some ?d0" by simp
  from push_loop_shape [OF this, of "rev newItems"] obtain d1 its where
    pl: "push_loop (rev newItems) ?m0 = (Inr (), ?m0\<lparr>db := Some d1, items := items ?m0 @ its\<rparr>)"
    and f1: "feedRecs d1 = feedRecs ?d0" by blast
  let ?m1 = "?m0\<lparr>db := Some d1, items := items ?m0 @ its\<rparr>"
  let ?num = "length_items ?m1 - length_items ?m0"
  let ?m2 = "Feeds_rotate (emit (LogWith ?num) ?m1)"
  let ?m3 = "if ?num > 0 then emitItemsLoaded ?m2 else ?m2"
  have lf: "loadFeed e now b m = (Inr ?num, ?m3)"
    using assms by (simp add: loadFeed_def Feeds_get_def li pl Let_def)
  have num: "0 \<le> ?num" by (simp add: length_items_def)
  have ids: "feedIds ?m3 = feedIds (Feeds_rotate m)"
    by (simp add: Feeds_rotate_def emit_def emitItemsLoaded_def split: list.splits)
  have ev: "polled (events ?m3) = polled (events m) @ [feedUrl fb]"
    by (simp add: Feeds_rotate_def emit_def emitItemsLoaded_def polled_append split: list.splits)
  have db3: "db ?m3 = Some d1"
    by (simp add: Feeds_rotate_def emit_def emitItemsLoaded_def split: list.splits)
  have others: "\<forall>a. a \<noteq> b \<longrightarrow> map_of (feedRecs d1) a = map_of (feedRecs d) a"
    by (simp add: f1 map_of_put_feed)
  from lf num ids ev db3 others show ?thesis by blast
qed

text \<open>  Claim C8, as amended. Over a registry with a feed \<open>a\<close> inside its reload wait and a feed
  \<open>b\<close> that is due: when \<open>b\<close> is at the front, \<^verbatim>\<open>loadMore\<close> polls \<open>b\<close> and nothing else,
  and \<open>b\<close> moves to the back; when \<open>a\<close> is at the front, \<^verbatim>\<open>loadMore\<close> polls nothing and
  leaves the order as it is. The value of \<^verbatim>\<open>loadFeed\<close> for a feed skipped inside its wait
  is \<open>-1\<close>, the same value that \<^verbatim>\<open>loadMore\<close> takes when there is no feed at all; in the
  newer variant \<^verbatim>\<open>cb_getLoadCandidate\<close> returns \<^verbatim>\<open>null\<close> in both cases.\<close>

theorem loadMore_two_feeds:
  assumes "db m = Some d" and "map_of (feedRecs d) a = Some fa"
    and "map_of (feedRecs d) b = Some fb" and "a \<noteq> b"
    and "lastLoadTime fb \<le> now - MinReloadWait"
    and "now - MinReloadWait < lastLoadTime fa" and "now' - MinReloadWait < lastLoadTime fa"
  shows "(feedIds m = [b, a] \<longrightarrow>
        (\<exists>m1. loadMore e (now # now' # later) m = Some (Inr (), m1) \<and> feedIds m1 = [a, b]
           \<and> polled (events m1) = polled (events m) @ [feedUrl fb]))
    \<and> (feedIds m = [a, b] \<longrightarrow>
        loadMore e (now # later) m =
          Some (Inr (), emit (LogNotLoading (feedUrl fa) (lastLoadTime fa)) m))
    \<and> fst (loadFeed e now a m) = Inr (-1)
    \<and> fst (loadMore_num e now (m\<lparr>feedIds := []\<rparr>)) = Inr (-1)
    \<and> (now - MIN_RELOAD_WAIT cfg * 3600 * 1000 < lastLoadTime fa \<and> feedIds m = [a, b] \<longrightarrow>
          fst (cb_getLoadCandidate cfg now (Inr v) m) = Inr None)
    \<and> fst (cb_getLoadCandidate cfg now (Inr v) (m\<lparr>feedIds := []\<rparr>)) = Inr None"
proof (intro conjI)
  show "feedIds m = [b, a] \<longrightarrow>
        (\<exists>m1. loadMore e (now # now' # later) m = Some (Inr (), m1) \<and> feedIds m1 = [a, b]
           \<and> polled (events m1) = polled (events m) @ [feedUrl fb])"
  proof
    assume order: "feedIds m = [b, a]"
    from loadFeed_eligible [OF assms(1) assms(3) assms(5), of e] obtain num m1 d1 where
      lf: "loadFeed e now b m = (Inr num, m1)" and num: "0 \<le> num"
      and ids: "feedIds m1 = feedIds (Feeds_rotate m)"
      and ev: "polled (events m1) = polled (events m) @ [feedUrl fb]"
      and db1: "db m1 = Some d1"
      and others: "\<forall>x. x \<noteq> b \<longrightarrow> map_of (feedRecs d1) x = map_of (feedRecs d) x"
      by blast
    from ids order have ids1: "feedIds m1 = [a, b]" by (simp add: Feeds_rotate_def)
    from others assms(2) assms(4) have fa1: "map_of (feedRecs d1) a = Some fa" by simp
    have first: "loadMore_num e now m = (Inr num, m1)"
      using order lf by (simp add: loadMore_num_def Feeds_first_def)
    have second: "loadMore_num e now' m1 =
        (Inr (-1), emit (LogNotLoading (feedUrl fa) (lastLoadTime fa)) m1)"
      using ids1 loadFeed_waiting [OF db1 fa1 assms(7), of e]
      by (simp add: loadMore_num_def Feeds_first_def)
    show "\<exists>m1. loadMore e (now # now' # later) m = Some (Inr (), m1) \<and> feedIds m1 = [a, b]
        \<and> polled (events m1) = polled (events m) @ [feedUrl fb]"
    proof (cases "shouldLoadMore m1")
      case True
      with first second num
      have "loadMore e (now # now' # later) m =
          Some (Inr (), emit (LogNotLoading (feedUrl fa) (lastLoadTime fa)) m1)"
        by simp
      with ids1 ev show ?thesis by (simp add: emit_def polled_append)
    next
      case False
      with first have "loadMore e (now # now' # later) m = Some (Inr (), m1)" by simp
      with ids1 ev show ?thesis by simp
    qed
  qed
next
  show "feedIds m = [a, b] \<longrightarrow>
        loadMore e (now # later) m =
          Some (Inr (), emit (LogNotLoading (feedUrl fa) (lastLoadTime fa)) m)"
    using loadFeed_waiting [OF assms(1) assms(2) assms(6), of e]
    by (simp add: loadMore_num_def Feeds_first_def)
next
  show "fst (loadFeed e now a m) = Inr (-1)"
    using loadFeed_waiting [OF assms(1) assms(2) assms(6), of e] by simp
next
  show "fst (loadMore_num e now (m\<lparr>feedIds := []\<rparr>)) = Inr (-1)"
    by (simp add: loadMore_num_def Feeds_first_def)
next
  show "now - MIN_RELOAD_WAIT cfg * 3600 * 1000 < lastLoadTime fa \<and> feedIds m = [a, b] \<longrightarrow>
          fst (cb_getLoadCandidate cfg now (Inr v) m) = Inr None"
    using assms(1) assms(2)
    by (simp add: cb_getLoadCandidate_def Feeds_first_def Feeds_get_def)
next
  show "fst (cb_getLoadCandidate cfg now (Inr v) (m\<lparr>feedIds := []\<rparr>)) = Inr None"
    by (simp add: cb_getLoadCandidate_def Feeds_first_def)
qed

theorem loadMore_two_feeds_witness:
  "(\<exists>m1. loadMore sample_env [10000000, 10000001] ((init feeds_db)\<lparr>feedIds := [2, 1]\<rparr>) =
          Some (Inr (), m1)
      \<and> feedIds m1 = [1, 2] \<and> polled (events m1) = [''http://b.example/feed''])
   \<and> fst (loadFeed sample_env 10000000 1 ((init feeds_db)\<lparr>feedIds := [2, 1]\<rparr>)) = Inr (-1)"
  using loadMore_two_feeds [of "(init feeds_db)\<lparr>feedIds := [2, 1]\<rparr>" feeds_db 1 feed_a 2 feed_b
      10000000 10000001 sample_env "[]" default_settings Null]
  by (simp add: sched_defs orch_defs eval_defs)

text \<open>  The claim as written fails on the registry whose front feed is the waiting one: nothing
  is polled although the second feed is due, and the order stays; and the two values are
  both \<open>-1\<close>.\<close>

theorem loadMore_two_feeds_counterexample:
  "loadMore sample_env [10000000, 10000001] (init feeds_db) =
     Some (Inr (), emit (LogNotLoading ''http://a.example/feed'' 9000000) (init feeds_db))
   \<and> feedIds (init feeds_db) = [1, 2]
   \<and> polled (events (emit (LogNotLoading ''http://a.example/feed'' 9000000) (init feeds_db))) = []
   \<and> fst (loadFeed sample_env 10000000 1 (init feeds_db)) = Inr (-1)
   \<and> fst (loadMore_num sample_env 10000000 ((init feeds_db)\<lparr>feedIds := []\<rparr>)) = Inr (-1)"
  by (simp add: sched_defs orch_defs eval_defs)

subsection \<open>A feed whose fetch failed\<close>

text \<open>
  Claim C9, as amended. In the newer variant, when \<^verbatim>\<open>cb_updateFeed\<close> gets a feed with an
  error (over an open database, after the push of the feed's items, with a random url that
  no stored item has), it pushes exactly one more item, \<^verbatim>\<open>oopsItem(feed)\<close>: its tags are
  \<^verbatim>\<open>["_error"]\<close>, its content is a fixed notice that names the feed's url and points to the
  console, and the error text goes to the console. The feed is stored with the error
  cleared and \<^verbatim>\<open>lastLoadTime\<close> at the first clock reading of the call, so that
  \<^verbatim>\<open>cb_getLoadCandidate\<close> returns \<^verbatim>\<open>null\<close> for it until the minimum reload wait has passed.
  The item that \<^verbatim>\<open>oopsItem()\<close> of the older items.js synthesizes has the fixed content
  "If you see this, this feed failed loading", which names neither the feed nor the error,
  the random url, and no tags at all.
\<close>

theorem cb_updateFeed_error:
  assumes "db m = Some d" and "truthy (error f)"
    and "push_loop (rev its) m = (Inr (), m1)" and "db m1 = Some d1"
    and "rnd \<notin> set (map (url \<circ> snd) (recs d1))"
  shows "(\<exists>m2 d2. cb_updateFeed cfg now now_item rnd (Inr v) (k, f) its m = (Inr Null, m2)
      \<and> items m2 = items m1 @ [nextKey d1]
      \<and> db m2 = Some d2
      \<and> recs d2 = recs d1 @ [(nextKey d1, oopsItem_feed now_item rnd (k, f))]
      \<and> tags (oopsItem_feed now_item rnd (k, f)) = [''_error'']
      \<and> contentHtml (oopsItem_feed now_item rnd (k, f)) =
          ''If you see this, this feed '' @ [CHR 0x27] @ feedUrl f @ [CHR 0x27] @
          '' failed loading:Check the console for the detail error.''
      \<and> Console ''error''
            (''The feed '' @ [CHR 0x27] @ feedUrl f @ [CHR 0x27] @ '' faild to load: '' @
             the (error f)) \<in> set (events m2)
      \<and> map_of (feedRecs d2) k = Some (f\<lparr>error := None, lastLoadTime := now\<rparr>)
      \<and> (\<forall>now' rest. feedIds m2 = k # rest \<and> unreadCount m2 < WATER_MARK cfg
              \<and> now' - MIN_RELOAD_WAIT cfg * 3600 * 1000 < now \<longrightarrow>
            cb_getLoadCandidate cfg now' (Inr v) m2 = (Inr None, m2)))
    \<and> contentHtml (oopsItem t r) = ''If you see this, this feed failed loading''
    \<and> url (oopsItem t r) = r
    \<and> tags (oopsItem t r) = []"
proof -
  from push_loop_shape [OF assms(1), of "rev its"] assms(3) obtain d' its' where
    m1: "m1 = m\<lparr>db := Some d', items := items m @ its'\<rparr>" by auto
  let ?num = "length_items m1 - length_items m"
  have num: "0 \<le> ?num" by (simp add: m1 length_items_def)
  let ?alert = "''The feed '' @ [CHR 0x27] @ feedUrl f @ [CHR 0x27] @ '' faild to load''"
  let ?line = "''The feed '' @ [CHR 0x27] @ feedUrl f @ [CHR 0x27] @ '' faild to load: '' @
      the (error f)"
  let ?ma = "emit (Console ''error'' ?line)
      (emitModelError ?alert (emit (LogLoaded (feedUrl f) ?num (int (length its))) m1))"
  let ?notice = "oopsItem_feed now_item rnd (k, f)"
  let ?d1' = "d1\<lparr>recs := recs d1 @ [(nextKey d1, ?notice)], nextKey := nextKey d1 + 1\<rparr>"
  let ?mb = "?ma\<lparr>db := Some ?d1', items := items ?ma @ [nextKey d1]\<rparr>"
  let ?f' = "f\<lparr>error := None, lastLoadTime := now\<rparr>"
  let ?d2 = "idb_put_feed ?d1' k ?f'"
  let ?m2 = "emit LoaderLoad (emitModelItemsLoaded (?mb\<lparr>db := Some ?d2\<rparr>))"
  have dba: "db ?ma = Some d1"
    using assms(4) by (simp add: emit_def emitModelError_def)
  have push: "pushItem ?notice ma =
      (Inr (), ma\<lparr>db := Some ?d1', items := items ma @ [nextKey d1]\<rparr>)"
    if "db ma = Some d1" for ma :: orch
    using that assms(5) by (simp add: pushItem_def idb_add_def oopsItem_feed_def)
  have run: "cb_updateFeed cfg now now_item rnd (Inr v) (k, f) its m = (Inr Null, ?m2)"
    using assms(2) assms(3) assms(4) num
    by (simp add: cb_updateFeed_def await_def Let_def push Feeds_updateFeed_def emit_def
        emitModelError_def)
  have its2: "items ?m2 = items m1 @ [nextKey d1]"
    by (simp add: emit_def emitModelError_def emitModelItemsLoaded_def)
  have db2: "db ?m2 = Some ?d2"
    by (simp add: emit_def emitModelItemsLoaded_def)
  have recs2: "recs ?d2 = recs d1 @ [(nextKey d1, ?notice)]"
    by (simp add: idb_put_feed_def)
  have tg: "tags ?notice = [''_error'']" by (simp add: oopsItem_feed_def)
  have ct: "contentHtml ?notice =
      ''If you see this, this feed '' @ [CHR 0x27] @ feedUrl f @ [CHR 0x27] @
      '' failed loading:Check the console for the detail error.''"
    by (simp add: oopsItem_feed_def)
  have cons: "Console ''error'' ?line \<in> set (events ?m2)"
    by (simp add: emit_def emitModelItemsLoaded_def)
  have fr: "map_of (feedRecs ?d2) k = Some ?f'" by (simp add: map_of_put_feed)
  have wait: "\<forall>now' rest. feedIds ?m2 = k # rest \<and> unreadCount ?m2 < WATER_MARK cfg
        \<and> now' - MIN_RELOAD_WAIT cfg * 3600 * 1000 < now \<longrightarrow>
      cb_getLoadCandidate cfg now' (Inr v) ?m2 = (Inr None, ?m2)"
    using db2 fr by (simp add: cb_getLoadCandidate_def Feeds_first_def Feeds_get_def)
  have newer: "\<exists>m2 d2. cb_updateFeed cfg now now_item rnd (Inr v) (k, f) its m = (Inr Null, m2)
      \<and> items m2 = items m1 @ [nextKey d1]
      \<and> db m2 = Some d2
      \<and> recs d2 = recs d1 @ [(nextKey d1, oopsItem_feed now_item rnd (k, f))]
      \<and> tags (oopsItem_feed now_item rnd (k, f)) = [''_error'']
      \<and> contentHtml (oopsItem_feed now_item rnd (k, f)) =
          ''If you see this, this feed '' @ [CHR 0x27] @ feedUrl f @ [CHR 0x27] @
          '' failed loading:Check the console for the detail error.''
      \<and> Console ''error''
            (''The feed '' @ [CHR 0x27] @ feedUrl f @ [CHR 0x27] @ '' faild to load: '' @
             the (error f)) \<in> set (events m2)
      \<and> map_of (feedRecs d2) k = Some (f\<lparr>error := None, lastLoadTime := now\<rparr>)
      \<and> (\<forall>now' rest. feedIds m2 = k # rest \<and> unreadCount m2 < WATER_MARK cfg
              \<and> now' - MIN_RELOAD_WAIT cfg * 3600 * 1000 < now \<longrightarrow>
            cb_getLoadCandidate cfg now' (Inr v) m2 = (Inr None, m2))"
    by (intro exI [of _ ?m2] exI [of _ ?d2] conjI)
       (rule run its2 db2 recs2 tg ct cons fr wait)+
  have older: "contentHtml (oopsItem t r) = ''If you see this, this feed failed loading''
      \<and> url (oopsItem t r) = r \<and> tags (oopsItem t r) = []"
    by (simp add: oopsItem_def)
  from newer older show ?thesis by (rule conjI)
qed

theorem cb_updateFeed_error_witness:
  "(\<exists>m2. cb_updateFeed default_settings 10000000 10000007 ''r4nd0m'' (Inr Null)
         (2, failed_feed) [] (init feeds_db) = (Inr Null, m2)
      \<and> items m2 = [1, 2, 3]
      \<and> stored_items m2 =
          stored_items (init feeds_db) @ [oopsItem_feed 10000007 ''r4nd0m'' (2, failed_feed)])
   \<and> tags (oopsItem 10000007 ''r4nd0m'') = []"
  using cb_updateFeed_error [of "init feeds_db" feeds_db failed_feed "[]" "init feeds_db" feeds_db
      "''r4nd0m''" default_settings 10000000 10000007 Null 2 10000007 "''r4nd0m''"]
  by (simp add: sched_defs orch_defs eval_defs)

text \<open>
  The claim as written fails in both variants. In the newer one the item does not carry
  the error text: for a feed whose error is "NetworkError: timeout" the content of the
  pushed item does not contain that text. In the older one the item of \<^verbatim>\<open>oopsItem()\<close> does
  not contain it either, and its tags hold no error marker: they are empty.
\<close>

theorem cb_updateFeed_error_counterexample:
  "stored_items (snd (cb_updateFeed default_settings 10000000 10000007 ''r4nd0m'' (Inr Null)
       (2, failed_feed) [] (init feeds_db))) =
     stored_items (init feeds_db) @ [oopsItem_feed 10000007 ''r4nd0m'' (2, failed_feed)]
   \<and> error failed_feed = Some ''NetworkError: timeout''
   \<and> \<not> contains_text (contentHtml (oopsItem_feed 10000007 ''r4nd0m'' (2, failed_feed)))
         ''NetworkError: timeout''
   \<and> \<not> contains_text (contentHtml (oopsItem 10000007 ''r4nd0m'')) ''NetworkError: timeout''
   \<and> tags (oopsItem 10000007 ''r4nd0m'') = []"
  by (simp add: sched_defs orch_defs eval_defs)

end
